theory Spec2Isabelle
  imports Main "HOL-Library.Word"
begin

unbundle bit_operations_syntax

section \<open>Data model\<close>

text \<open>
  A \<open>Uint8Array\<close> is a list of 8-bit words. A JavaScript string is a \<open>string\<close>: a list
  of 8-bit characters, read as the code units below 256 (Latin-1). Every regular
  expression of the program only accepts ASCII characters, so a string with a code unit
  above 255 is refused wherever one with a character such as \<open>CHR ''~''\<close> is.
\<close>

type_synonym u8 = "8 word"

text \<open>
  Every \<open>throw\<close> of the program, and every exception of a library function it calls,
  is a value of \<open>error\<close>; a function that may throw returns \<open>error + 'a\<close>.
\<close>

datatype error =
    InvalidHex                  \<comment> \<open>\<open>Error("invalid hex")\<close>\<close>
  | NonceNot16                  \<comment> \<open>\<open>Error("nonce must be exactly 16 bytes")\<close>\<close>
  | BigIntSyntaxError           \<comment> \<open>\<open>SyntaxError\<close> of \<open>BigInt(string)\<close>\<close>
  | SetRangeError               \<comment> \<open>\<open>RangeError\<close> of \<open>TypedArray.prototype.set\<close>\<close>
  | BadBeaconIdHex string       \<comment> \<open>\<open>Error("Bad beaconIdHex: ...")\<close>\<close>
  | BadPublicKeyHex string      \<comment> \<open>\<open>Error("Bad publicKeyHex for ...")\<close>\<close>
  | JsonSyntaxError             \<comment> \<open>\<open>SyntaxError\<close> of \<open>JSON.parse\<close>\<close>
  | ZodError "string list"      \<comment> \<open>\<open>ZodError\<close> of \<open>parse\<close>, with the messages of the failed fields\<close>
  | BadSignatureSize            \<comment> \<open>\<open>Error("bad signature size")\<close> of tweetnacl\<close>
  | BadPublicKeySize            \<comment> \<open>\<open>Error("bad public key size")\<close> of tweetnacl\<close>
  | SchemaValidationError "string list"
      \<comment> \<open>validation error of the route's body schema, with the paths of the failed fields\<close>

section \<open>Characters and regular expressions\<close>

definition is_digit :: "char \<Rightarrow> bool" where
  "is_digit c = (let n = (of_char c :: nat) in 48 \<le> n \<and> n \<le> 57)"

text \<open>The character class \<open>[0-9a-f]\<close>.\<close>

definition is_lower_hex :: "char \<Rightarrow> bool" where
  "is_lower_hex c = (let n = (of_char c :: nat) in (48 \<le> n \<and> n \<le> 57) \<or> (97 \<le> n \<and> n \<le> 102))"

text \<open>The character class \<open>[0-9a-f]\<close> under the flag \<open>i\<close>, which is \<open>[0-9a-fA-F]\<close>.\<close>

definition is_hex :: "char \<Rightarrow> bool" where
  "is_hex c = (let n = (of_char c :: nat) in
     (48 \<le> n \<and> n \<le> 57) \<or> (97 \<le> n \<and> n \<le> 102) \<or> (65 \<le> n \<and> n \<le> 70))"

text \<open>
  \<open>String.prototype.toLowerCase\<close> on the code units below 256: the letters \<open>A-Z\<close> and
  the Latin-1 capitals (192 to 222 without the multiplication sign 215) move up by 32.
\<close>

definition toLowerCase_char :: "char \<Rightarrow> char" where
  "toLowerCase_char c = (let n = (of_char c :: nat) in
     if (65 \<le> n \<and> n \<le> 90) \<or> (192 \<le> n \<and> n \<le> 222 \<and> n \<noteq> 215) then char_of (n + 32) else c)"

definition toLowerCase :: "string \<Rightarrow> string" where
  "toLowerCase s = map toLowerCase_char s"

text \<open>\<open>/^[0-9a-f]*$/.test(s)\<close>; without the flag \<open>m\<close>, \<open>$\<close> is the end of the input.\<close>

definition re_lower_hex_star :: "string \<Rightarrow> bool" where
  "re_lower_hex_star s = list_all is_lower_hex s"

text \<open>\<open>/^[0-9a-f]{k}$/i.test(s)\<close>.\<close>

definition re_hex_exactly :: "nat \<Rightarrow> string \<Rightarrow> bool" where
  "re_hex_exactly k s = (length s = k \<and> list_all is_hex s)"

text \<open>\<open>/^[0-9]+$/.test(s)\<close>.\<close>

definition re_digits_plus :: "string \<Rightarrow> bool" where
  "re_digits_plus s = (s \<noteq> [] \<and> list_all is_digit s)"

section \<open>Hex codec (api/src/crypto.ts)\<close>

text \<open>
  The value of a digit in \<open>parseInt(s, 16)\<close>; \<open>None\<close> for a character that is not a
  digit of radix 16.
\<close>

definition digitVal16 :: "char \<Rightarrow> nat option" where
  "digitVal16 c = (let n = (of_char c :: nat) in
     if 48 \<le> n \<and> n \<le> 57 then Some (n - 48)
     else if 97 \<le> n \<and> n \<le> 102 then Some (n - 87)
     else if 65 \<le> n \<and> n \<le> 70 then Some (n - 55)
     else None)"

text \<open>
  \<open>parseInt(s, 16)\<close> on a string that starts with neither white space, a sign nor the
  prefix \<open>0x\<close> (none of them passes the guard of \<open>hexToBytes\<close>): the value of the longest
  prefix of digits, \<open>None\<close> (NaN) when that prefix is empty.
\<close>

fun parseInt16_from :: "nat option \<Rightarrow> string \<Rightarrow> nat option" where
  "parseInt16_from acc [] = acc"
| "parseInt16_from acc (c # cs) =
     (case digitVal16 c of
        None \<Rightarrow> acc
      | Some d \<Rightarrow> parseInt16_from (Some (16 * (case acc of None \<Rightarrow> 0 | Some a \<Rightarrow> a) + d)) cs)"

definition parseInt16 :: "string \<Rightarrow> nat option" where
  "parseInt16 s = parseInt16_from None s"

text \<open>Storing a number into a \<open>Uint8Array\<close>: NaN becomes 0, an integer is taken modulo 256.\<close>

definition toUint8 :: "nat option \<Rightarrow> u8" where
  "toUint8 v = (case v of None \<Rightarrow> 0 | Some n \<Rightarrow> of_nat n)"

text \<open>\<open>s.slice(a, b)\<close> for \<open>0 \<le> a \<le> b\<close>; both ends are clamped to the length.\<close>

definition slice :: "string \<Rightarrow> nat \<Rightarrow> nat \<Rightarrow> string" where
  "slice s a b = take (b - a) (drop a s)"

text \<open>
  The loop \<open>for (i = 0; i < out.length; i++) out[i] = parseInt(hex.slice(i*2, i*2+2), 16)\<close>
  over \<open>out = new Uint8Array(hex.length / 2)\<close>.
\<close>

definition hexToBytes_loop :: "string \<Rightarrow> u8 list" where
  "hexToBytes_loop hex =
     map (\<lambda>i. toUint8 (parseInt16 (slice hex (i * 2) (i * 2 + 2)))) [0 ..< length hex div 2]"

definition hexToBytes :: "string \<Rightarrow> error + u8 list" where
  "hexToBytes h =
     (let hex = toLowerCase h in
      if \<not> re_lower_hex_star hex \<or> length hex mod 2 \<noteq> 0 then Inl InvalidHex
      else Inr (hexToBytes_loop hex))"

text \<open>The digit of \<open>Number.prototype.toString(16)\<close> for a value below 16.\<close>

definition hexChar :: "nat \<Rightarrow> char" where
  "hexChar d = (if d < 10 then char_of (48 + d) else char_of (87 + d))"

function toString16 :: "nat \<Rightarrow> string" where
  "toString16 n = (if n < 16 then [hexChar n] else toString16 (n div 16) @ [hexChar (n mod 16)])"
  by pat_completeness auto
termination
  by (relation "measure id") auto

text \<open>\<open>s.padStart(k, c)\<close> with a filler of one character.\<close>

definition padStart :: "nat \<Rightarrow> char \<Rightarrow> string \<Rightarrow> string" where
  "padStart k c s = replicate (k - length s) c @ s"

definition bytesToHex :: "u8 list \<Rightarrow> string" where
  "bytesToHex b = concat (map (\<lambda>x. padStart 2 (CHR ''0'') (toString16 (unat x))) b)"

section \<open>Message builder (api/src/crypto.ts)\<close>

subsection \<open>\<open>BigInt(string)\<close>\<close>

text \<open>
  \<open>BigInt\<close> applied to a string is the language's \<open>StringToBigInt\<close>: white space is
  trimmed at both ends; the empty string is 0; a decimal literal may carry a sign; a
  literal with the prefix \<open>0x\<close>, \<open>0o\<close> or \<open>0b\<close> (in either case) has no sign and at
  least one digit; anything else is a \<open>SyntaxError\<close>. White space below code unit 256
  is TAB, LF, VT, FF, CR, SP and NBSP; the white space characters above 255 are not
  strings of this model.
\<close>

definition is_js_space :: "char \<Rightarrow> bool" where
  "is_js_space c = (let n = (of_char c :: nat) in (9 \<le> n \<and> n \<le> 13) \<or> n = 32 \<or> n = 160)"

definition trim :: "string \<Rightarrow> string" where
  "trim s = rev (dropWhile is_js_space (rev (dropWhile is_js_space s)))"

fun digitsValue :: "nat \<Rightarrow> nat \<Rightarrow> string \<Rightarrow> nat option" where
  "digitsValue r acc [] = Some acc"
| "digitsValue r acc (c # cs) =
     (case digitVal16 c of
        None \<Rightarrow> None
      | Some d \<Rightarrow> if d < r then digitsValue r (r * acc + d) cs else None)"

text \<open>One or more digits of radix \<open>r\<close>, with their value.\<close>

definition radixDigits :: "nat \<Rightarrow> string \<Rightarrow> nat option" where
  "radixDigits r s = (if s = [] then None else digitsValue r 0 s)"

fun StrIntegerLiteral :: "string \<Rightarrow> int option" where
  "StrIntegerLiteral [] = Some 0"
| "StrIntegerLiteral [c] = map_option int (radixDigits 10 [c])"
| "StrIntegerLiteral (c # d # cs) =
     (if c = CHR ''+'' then map_option int (radixDigits 10 (d # cs))
      else if c = CHR ''-'' then map_option (\<lambda>v. - int v) (radixDigits 10 (d # cs))
      else if c = CHR ''0'' \<and> (d = CHR ''x'' \<or> d = CHR ''X'') then map_option int (radixDigits 16 cs)
      else if c = CHR ''0'' \<and> (d = CHR ''o'' \<or> d = CHR ''O'') then map_option int (radixDigits 8 cs)
      else if c = CHR ''0'' \<and> (d = CHR ''b'' \<or> d = CHR ''B'') then map_option int (radixDigits 2 cs)
      else map_option int (radixDigits 10 (c # d # cs)))"

definition StringToBigInt :: "string \<Rightarrow> int option" where
  "StringToBigInt str = StrIntegerLiteral (trim str)"

text \<open>
  The characters that occur in the strings \<open>BigInt\<close> accepts: digits and the letters of
  a hexadecimal literal, white space, the signs, and the letters of the prefixes (\<open>b\<close>
  and \<open>B\<close> are hex digits already).
\<close>

definition bigint_char :: "char \<Rightarrow> bool" where
  "bigint_char c =
     (is_hex c \<or> is_js_space c \<or> c = CHR ''+'' \<or> c = CHR ''-'' \<or> c = CHR ''x'' \<or> c = CHR ''X''
        \<or> c = CHR ''o'' \<or> c = CHR ''O'')"

subsection \<open>\<open>u64StringTo8BE\<close> and \<open>buildMessage\<close>\<close>

text \<open>
  \<open>n >> k\<close> on a BigInt is \<open>drop_bit k n\<close> on \<open>int\<close> (the floor of \<open>n / 2^k\<close>, also for a
  negative \<open>n\<close>), \<open>& 0xffn\<close> is \<open>AND 255\<close>. The loop runs \<open>i\<close> from 7 down to 0 over
  \<open>out = new Uint8Array(8)\<close>.
\<close>

definition u64StringTo8BE :: "string \<Rightarrow> error + u8 list" where
  "u64StringTo8BE msStr =
     (case StringToBigInt msStr of
        None \<Rightarrow> Inl BigIntSyntaxError
      | Some n \<Rightarrow>
          Inr (foldl (\<lambda>out i. out[i := of_int (drop_bit ((7 - i) * 8) n AND 255)])
                 (replicate 8 0) (rev [0 ..< 8])))"

text \<open>
  \<open>target.set(source, offset)\<close> on typed arrays: a \<open>RangeError\<close> when the source does
  not fit, else the source overwrites the target from \<open>offset\<close> on.
\<close>

definition typedSet :: "u8 list \<Rightarrow> u8 list \<Rightarrow> nat \<Rightarrow> error + u8 list" where
  "typedSet target source offset =
     (if length target < offset + length source then Inl SetRangeError
      else Inr (take offset target @ source @ drop (offset + length source) target))"

definition buildMessage :: "string \<Rightarrow> string \<Rightarrow> error + u8 list" where
  "buildMessage nonceHex tsMs =
     (case hexToBytes nonceHex of
        Inl e \<Rightarrow> Inl e
      | Inr nonce \<Rightarrow>
          if length nonce \<noteq> 16 then Inl NonceNot16
          else (case u64StringTo8BE tsMs of
                  Inl e \<Rightarrow> Inl e
                | Inr ts \<Rightarrow>
                    (case typedSet (replicate 24 0) nonce 0 of
                       Inl e \<Rightarrow> Inl e
                     | Inr msg \<Rightarrow> typedSet msg ts 16)))"

subsection \<open>The wire format, as the specification words it\<close>

text \<open>The value of a string of decimal digits (0 for the empty string).\<close>

definition decimalValue :: "string \<Rightarrow> nat" where
  "decimalValue s = foldl (\<lambda>a c. 10 * a + (of_char c - 48)) 0 s"

text \<open>
  The 8-byte big-endian encoding of \<open>v\<close>: byte \<open>i\<close> is \<open>v div 256^(7 - i)\<close> modulo 256
  (the conversion to \<open>u8\<close> takes the remainder).
\<close>

definition be64 :: "nat \<Rightarrow> u8 list" where
  "be64 v = map (\<lambda>i. of_nat (v div 256 ^ (7 - i))) [0 ..< 8]"

text \<open>Reading bytes as a big-endian number, the inverse of \<open>be64\<close> below \<open>2^64\<close>.\<close>

definition beValue :: "u8 list \<Rightarrow> nat" where
  "beValue bs = foldl (\<lambda>n b. 256 * n + unat b) 0 bs"

section \<open>Beacon registry (api/src/registry.ts)\<close>

text \<open>
  \<open>REG\<close> is a module-level \<open>Map\<close> from beacon id to public key, both in hex: a state
  that \<open>loadBeaconRegistry\<close> updates in place and \<open>getPublicKeyHex\<close> reads. An exception
  does not undo the updates made before it, so the load returns the exception (if any)
  together with the registry it leaves behind.

  The registry file is either absent, or not JSON, or an object whose
  \<open>Object.entries\<close> are given in their order of enumeration, with strings as values (the
  source casts the parsed file to \<open>Record<string, string>\<close>). The console output is left
  out.
\<close>

type_synonym registry = "string \<rightharpoonup> string"

datatype registry_file = Missing | NotJson | Entries "(string \<times> string) list"

text \<open>The loop \<open>for (const [beaconIdHex, publicKeyHex] of Object.entries(obj))\<close>.\<close>

fun loadEntries :: "(string \<times> string) list \<Rightarrow> registry \<Rightarrow> error option \<times> registry" where
  "loadEntries [] REG = (None, REG)"
| "loadEntries ((beaconIdHex, publicKeyHex) # rest) REG =
     (if \<not> re_hex_exactly 16 beaconIdHex then (Some (BadBeaconIdHex beaconIdHex), REG)
      else if \<not> re_hex_exactly 64 publicKeyHex then (Some (BadPublicKeyHex beaconIdHex), REG)
      else loadEntries rest (REG(toLowerCase beaconIdHex \<mapsto> toLowerCase publicKeyHex)))"

definition loadBeaconRegistry :: "registry_file \<Rightarrow> registry \<Rightarrow> error option \<times> registry" where
  "loadBeaconRegistry file REG =
     (let REG = Map.empty in
      case file of
        Missing \<Rightarrow> (None, REG)
      | NotJson \<Rightarrow> (Some JsonSyntaxError, REG)
      | Entries obj \<Rightarrow> loadEntries obj REG)"

definition getPublicKeyHex :: "registry \<Rightarrow> string \<Rightarrow> string option" where
  "getPublicKeyHex REG beaconIdHex = REG (toLowerCase beaconIdHex)"

text \<open>
  The registries a running process can hold: the empty \<open>Map\<close> the module starts with,
  and what a call of \<open>loadBeaconRegistry\<close> leaves behind, whether it returned or threw.
\<close>

inductive reachable :: "registry \<Rightarrow> bool" where
  initial: "reachable Map.empty"
| loaded: "reachable REG \<Longrightarrow> reachable (snd (loadBeaconRegistry file REG))"

section \<open>Verification endpoint (api/src/index.ts)\<close>

record verify_body =
  beaconIdHex :: string
  nonceHex :: string
  tsMs :: string
  sigHex :: string

text \<open>
  The reply: the HTTP status, the field \<open>ok\<close>, and the field \<open>error\<close> when the body
  has one.
\<close>

record response =
  status :: nat
  ok :: bool
  error :: "string option"

text \<open>
  \<open>z.object({...}).parse(req.body)\<close> on a body whose four fields are strings: it throws
  a \<open>ZodError\<close> listing every field that fails its regular expression, else returns the
  body.
\<close>

definition zodParse :: "verify_body \<Rightarrow> error + verify_body" where
  "zodParse b =
     (let issues =
        (if re_hex_exactly 16 (beaconIdHex b) then [] else [''beaconId must be 8 bytes hex'']) @
        (if re_hex_exactly 32 (nonceHex b) then [] else [''nonce must be 16 bytes hex'']) @
        (if re_digits_plus (tsMs b) then [] else [''tsMs must be a decimal string'']) @
        (if re_hex_exactly 128 (sigHex b) then [] else [''signature must be 64 bytes hex''])
      in if issues = [] then Inr b else Inl (ZodError issues))"

text \<open>
  \<open>nacl.sign.detached.verify(msg, sig, publicKey)\<close> of tweetnacl checks the two sizes and
  then decides whether \<open>sig\<close> is an Ed25519 signature of \<open>msg\<close> under \<open>publicKey\<close>. That
  decision is the parameter \<open>ed25519\<close>.
\<close>

definition nacl_verify ::
    "(u8 list \<Rightarrow> u8 list \<Rightarrow> u8 list \<Rightarrow> bool) \<Rightarrow> u8 list \<Rightarrow> u8 list \<Rightarrow> u8 list \<Rightarrow> error + bool" where
  "nacl_verify ed25519 msg sig publicKey =
     (if length sig \<noteq> 64 then Inl BadSignatureSize
      else if length publicKey \<noteq> 32 then Inl BadPublicKeySize
      else Inr (ed25519 msg sig publicKey))"

text \<open>
  The handler of \<open>POST /api/verify\<close>. \<open>!pubHex\<close> holds for \<open>undefined\<close> and for the empty
  string. \<open>Inl\<close> is an exception that leaves the handler.
\<close>

definition verify_handler ::
    "(u8 list \<Rightarrow> u8 list \<Rightarrow> u8 list \<Rightarrow> bool) \<Rightarrow> registry \<Rightarrow> verify_body \<Rightarrow> error + response" where
  "verify_handler ed25519 REG req_body =
     (case zodParse req_body of
        Inl e \<Rightarrow> Inl e
      | Inr body \<Rightarrow>
          (case getPublicKeyHex REG (beaconIdHex body) of
             None \<Rightarrow> Inr \<lparr>status = 400, ok = False, error = Some ''unknown_beacon''\<rparr>
           | Some pubHex \<Rightarrow>
               if pubHex = [] then Inr \<lparr>status = 400, ok = False, error = Some ''unknown_beacon''\<rparr>
               else (case buildMessage (nonceHex body) (tsMs body) of
                       Inl e \<Rightarrow> Inl e
                     | Inr msg \<Rightarrow>
                         (case hexToBytes (sigHex body) of
                            Inl e \<Rightarrow> Inl e
                          | Inr sig \<Rightarrow>
                              (case hexToBytes pubHex of
                                 Inl e \<Rightarrow> Inl e
                               | Inr pub \<Rightarrow>
                                   (case nacl_verify ed25519 msg sig pub of
                                      Inl e \<Rightarrow> Inl e
                                    | Inr valid \<Rightarrow>
                                        Inr \<lparr>status = 200, ok = valid, error = None\<rparr>))))))"

text \<open>
  The route \<open>POST /api/verify\<close>. Before it calls the handler, Fastify validates the
  request body against the \<open>body\<close> schema of the route, with the validator that
  \<open>index.ts\<close> sets (Ajv with \<open>allErrors\<close>). The schema requires the four fields, as
  strings and with nothing beside them, which is what the record \<open>verify_body\<close> holds;
  what remains are the patterns \<open>^[0-9a-fA-F]{16}$\<close>, \<open>^[0-9a-fA-F]{32}$\<close>, \<open>^[0-9]+$\<close>
  and \<open>^[0-9a-fA-F]{128}$\<close>. A body that fails is refused there and the handler does
  not run: the outcome is the validation error, with the paths of the fields that
  failed. The HTTP reply that Fastify makes of this error is not code of the repository
  and is not part of the model.
\<close>

definition body_schema_errors :: "verify_body \<Rightarrow> string list" where
  "body_schema_errors b =
     (if re_hex_exactly 16 (beaconIdHex b) then [] else [''/beaconIdHex'']) @
     (if re_hex_exactly 32 (nonceHex b) then [] else [''/nonceHex'']) @
     (if re_digits_plus (tsMs b) then [] else [''/tsMs'']) @
     (if re_hex_exactly 128 (sigHex b) then [] else [''/sigHex''])"

definition verify_route ::
    "(u8 list \<Rightarrow> u8 list \<Rightarrow> u8 list \<Rightarrow> bool) \<Rightarrow> registry \<Rightarrow> verify_body \<Rightarrow> error + response" where
  "verify_route ed25519 REG req_body =
     (if body_schema_errors req_body \<noteq> []
      then Inl (SchemaValidationError (body_schema_errors req_body))
      else verify_handler ed25519 REG req_body)"


definition always_valid :: "u8 list \<Rightarrow> u8 list \<Rightarrow> u8 list \<Rightarrow> bool" where
  "always_valid msg sig publicKey = True"

definition accepts_only :: "u8 list \<Rightarrow> u8 list \<Rightarrow> u8 list \<Rightarrow> u8 list \<Rightarrow> bool" where
  "accepts_only m msg sig publicKey = (msg = m)"

section \<open>Challenge/response session (frontend, App.tsx)\<close>

text \<open>
  The component keeps three refs (\<open>conn\<close>, \<open>notifyAttached\<close>, \<open>nonceRef\<close>) and its React
  state. The state variables \<open>beaconIdHex\<close>, \<open>nonceHex\<close>, \<open>tsMs\<close> and \<open>sigHex\<close> carry the
  suffix \<open>_st\<close> here, since the request body has fields of the same names. Of the
  connection only \<open>device.gatt.connected\<close> is read.

  \<open>onNotify\<close> is a closure: registered as a listener, it keeps the value that the state
  variable \<open>beaconIdHex\<close> had in the render that registered it, while the refs and the
  setters it uses are those of the component. \<open>listener_beaconIdHex\<close> is that captured
  value.
\<close>

record conn =
  gatt_connected :: bool

text \<open>
  What \<open>setErr\<close> is given: the empty string, one of the two template strings with the
  length they print, or a message taken from an exception or from the reply.
\<close>

datatype ui_error =
    NoError                     \<comment> \<open>\<open>""\<close>\<close>
  | Expected72B nat             \<comment> \<open>\<open>`Expected 72B, got ${raw.length}`\<close>\<close>
  | NonceNotReady nat           \<comment> \<open>\<open>`Nonce not ready (len=${...}) ... press Verify again`\<close>\<close>
  | Message string              \<comment> \<open>\<open>e.message\<close> or \<open>json.error\<close>\<close>

record session =
  conn :: "conn option"
  notifyAttached :: bool
  nonceRef :: string
  deviceName :: string
  beaconIdHex_st :: string
  nonceHex_st :: string
  tsMs_st :: string
  sigHex_st :: string
  verified :: "bool option"
  err :: ui_error
  connecting :: bool
  verifying :: bool
  listener_beaconIdHex :: string

text \<open>The calls a session action makes on the device and on the API, in their order.\<close>

datatype effect =
    GattDisconnect              \<comment> \<open>\<open>d.gatt.disconnect()\<close>\<close>
  | FetchNonce                  \<comment> \<open>\<open>fetch(`${API}/api/nonce`)\<close>\<close>
  | StartNotifications          \<comment> \<open>\<open>signRespChar.startNotifications()\<close>\<close>
  | AddListener                 \<comment> \<open>\<open>signRespChar.addEventListener("characteristicvaluechanged", onNotify)\<close>\<close>
  | StopNotifications           \<comment> \<open>\<open>stopNotifications()\<close>, which no action calls\<close>
  | RemoveListener              \<comment> \<open>\<open>removeEventListener(...)\<close>, which no action calls\<close>
  | WriteNonce "u8 list"        \<comment> \<open>\<open>signNonceChar.writeValueWithoutResponse(bytes)\<close>\<close>
  | PostVerify verify_body      \<comment> \<open>\<open>fetch(`${API}/api/verify`, {method: "POST", body})\<close>\<close>

text \<open>The state of a freshly mounted component.\<close>

definition initial_session :: session where
  "initial_session =
     \<lparr>conn = None, notifyAttached = False, nonceRef = [], deviceName = [],
      beaconIdHex_st = [], nonceHex_st = [], tsMs_st = [], sigHex_st = [],
      verified = None, err = NoError, connecting = False, verifying = False,
      listener_beaconIdHex = []\<rparr>"

text \<open>
  \<open>disconnectBeacon\<close>. \<open>gatt.disconnect()\<close> does not throw, so the assignments after it
  all run.
\<close>

definition disconnectBeacon :: "session \<Rightarrow> session \<times> effect list" where
  "disconnectBeacon s =
     (let effects = (case conn s of
                       Some d \<Rightarrow> if gatt_connected d then [GattDisconnect] else []
                     | None \<Rightarrow> [])
      in (s\<lparr>conn := None, notifyAttached := False, deviceName := [], beaconIdHex_st := [],
            verified := None, nonceHex_st := [], tsMs_st := [], sigHex_st := [],
            err := NoError\<rparr>, effects))"

text \<open>The frontend's own \<open>hexToBytes\<close>: no lowering, \<open>Error("bad hex")\<close> as its message.\<close>

definition hexToBytes_frontend :: "string \<Rightarrow> string + u8 list" where
  "hexToBytes_frontend hex =
     (if \<not> list_all is_hex hex \<or> length hex mod 2 \<noteq> 0 then Inl ''bad hex''
      else Inr (hexToBytes_loop hex))"

text \<open>
  \<open>verifyPresence\<close>. The answer of the nonce endpoint is \<open>nonceReply\<close>: \<open>Inl m\<close> when the
  fetch throws or the status is not ok (\<open>m\<close> the message), \<open>Inr nonce_hex\<close> otherwise
  (\<open>nonce_hex\<close> is the field \<open>nonceHex\<close> of the reply). The
  calls on the device are taken to succeed.
\<close>

definition verifyPresence :: "string + string \<Rightarrow> session \<Rightarrow> session \<times> effect list" where
  "verifyPresence nonceReply s =
     (let s0 = s\<lparr>err := NoError, verified := None, tsMs_st := [], sigHex_st := [],
                  verifying := True\<rparr>
      in case conn s0 of
           None \<Rightarrow> (s0\<lparr>err := Message ''Not connected to a beacon yet'', verifying := False\<rparr>, [])
         | Some d \<Rightarrow>
             (case nonceReply of
                Inl m \<Rightarrow> (s0\<lparr>err := Message m, verifying := False\<rparr>, [FetchNonce])
              | Inr nonce_hex \<Rightarrow>
                  (let s1 = s0\<lparr>nonceHex_st := nonce_hex, nonceRef := nonce_hex\<rparr>;
                       attach = (if \<not> notifyAttached s1 then [StartNotifications, AddListener] else []);
                       s2 = (if \<not> notifyAttached s1
                             then s1\<lparr>notifyAttached := True,
                                     listener_beaconIdHex := beaconIdHex_st s1\<rparr>
                             else s1)
                   in case hexToBytes_frontend (nonceRef s2) of
                        Inl m \<Rightarrow> (s2\<lparr>err := Message m, verifying := False\<rparr>, FetchNonce # attach)
                      | Inr bytes \<Rightarrow> (s2, FetchNonce # attach @ [WriteNonce bytes]))))"

text \<open>
  \<open>be64ToMs\<close> up to the BigInt \<open>n\<close> (the loop \<open>n = (n << 8n) | BigInt(u8[i])\<close>), and
  \<open>String(Number(n))\<close>: below \<open>2^53\<close> the conversion is exact and prints the decimal
  digits; from there on it rounds to a double and prints that, which is the parameter
  \<open>fmt\<close>.
\<close>

definition be64ToMs :: "u8 list \<Rightarrow> string + nat" where
  "be64ToMs u8 =
     (if length u8 \<noteq> 8 then Inl ''ts must be 8 bytes''
      else Inr (foldl (\<lambda>n b. push_bit 8 n OR unat b) 0 u8))"

function decimalString :: "nat \<Rightarrow> string" where
  "decimalString n =
     (if n < 10 then [char_of (48 + n)] else decimalString (n div 10) @ [char_of (48 + n mod 10)])"
  by pat_completeness auto
termination
  by (relation "measure id") auto

definition numberToString :: "(nat \<Rightarrow> string) \<Rightarrow> nat \<Rightarrow> string" where
  "numberToString fmt n = (if n < 2 ^ 53 then decimalString n else fmt n)"

text \<open>The reply of the verification endpoint as \<open>onNotify\<close> reads it.\<close>

record api_reply =
  reply_ok :: bool              \<comment> \<open>\<open>!!json.ok\<close>\<close>
  reply_error :: string         \<comment> \<open>\<open>json.error\<close>, empty when absent\<close>

text \<open>
  \<open>onNotify\<close> on the bytes \<open>raw\<close> of the notified value. \<open>api\<close> is the verification
  endpoint as seen through \<open>fetch\<close>: \<open>Inl m\<close> when the call throws.
\<close>

definition onNotify ::
    "(nat \<Rightarrow> string) \<Rightarrow> (verify_body \<Rightarrow> string + api_reply) \<Rightarrow> session \<Rightarrow> u8 list
       \<Rightarrow> session \<times> effect list" where
  "onNotify fmt api s raw =
     (if length raw \<noteq> 72 then (s\<lparr>err := Expected72B (length raw), verifying := False\<rparr>, [])
      else
        (let tsBytes = take 8 raw; sigBytes = drop 8 raw in
         case be64ToMs tsBytes of
           Inl m \<Rightarrow> (s\<lparr>err := Message m, verifying := False\<rparr>, [])
         | Inr n \<Rightarrow>
             (let ms = numberToString fmt n;
                  sig = bytesToHex sigBytes;
                  s1 = s\<lparr>tsMs_st := ms, sigHex_st := sig\<rparr>
              in if nonceRef s1 = [] \<or> length (nonceRef s1) \<noteq> 32
                 then (s1\<lparr>err := NonceNotReady (length (nonceRef s1)), verifying := False\<rparr>, [])
                 else
                   (let payload = \<lparr>beaconIdHex = listener_beaconIdHex s1, nonceHex = nonceRef s1,
                                     tsMs = ms, sigHex = sig\<rparr>
                    in case api payload of
                         Inl m \<Rightarrow> (s1\<lparr>err := Message m, verifying := False\<rparr>, [PostVerify payload])
                       | Inr json \<Rightarrow>
                           (s1\<lparr>verified := Some (reply_ok json),
                               err := (if \<not> reply_ok json \<and> reply_error json \<noteq> []
                                       then Message (reply_error json) else err s1),
                               verifying := False\<rparr>,
                            [PostVerify payload])))))"

text \<open>A verification endpoint that refuses every request, for the examples.\<close>

definition refusing_api :: "verify_body \<Rightarrow> string + api_reply" where
  "refusing_api payload = Inr \<lparr>reply_ok = False, reply_error = ''unknown_beacon''\<rparr>"

section \<open>Notions used in the statements\<close>

text \<open>A registry entry that passes both format checks of the load.\<close>

definition entry_ok :: "string \<times> string \<Rightarrow> bool" where
  "entry_ok e = (re_hex_exactly 16 (fst e) \<and> re_hex_exactly 64 (snd e))"

text \<open>Storing a list of entries, in lower case, one after the other.\<close>

definition store_entries :: "(string \<times> string) list \<Rightarrow> registry \<Rightarrow> registry" where
  "store_entries es REG = foldl (\<lambda>R e. R(toLowerCase (fst e) \<mapsto> toLowerCase (snd e))) REG es"

text \<open>Every key of the registry is 64 hex digits in lower case.\<close>

definition registry_ok :: "registry \<Rightarrow> bool" where
  "registry_ok REG = (\<forall>b k. REG b = Some k \<longrightarrow> length k = 64 \<and> list_all is_lower_hex k)"

text \<open>
  The examples: a registry file with one beacon, the registry loaded from it, a file
  whose second entry is malformed, and a request for the registered beacon.
\<close>

definition example_key :: string where
  "example_key = ''D75A980182B10AB7D54BFED3C964073A0EE172F3DAA62325AF021A68F707511A''"

definition example_file :: registry_file where
  "example_file = Entries [(''A1B2C3D4E5F60708'', example_key)]"

definition example_registry :: registry where
  "example_registry = snd (loadBeaconRegistry example_file Map.empty)"

definition broken_file :: registry_file where
  "broken_file = Entries [(''00000000000000ff'', example_key), (''bad'', example_key)]"

text \<open>
  A session as \<open>connectBeacon\<close> leaves it after reading the beacon's id, the same
  session after \<open>verifyPresence\<close> has obtained a nonce and written it to the beacon, and
  that session after \<open>disconnectBeacon\<close>.
\<close>

definition connected_session :: session where
  "connected_session =
     initial_session\<lparr>conn := Some \<lparr>gatt_connected = True\<rparr>, deviceName := ''Beacon'',
                      beaconIdHex_st := ''a1b2c3d4e5f60708''\<rparr>"

definition awaiting_session :: session where
  "awaiting_session =
     fst (verifyPresence (Inr ''00112233445566778899aabbccddeeff'') connected_session)"

definition disconnected_session :: session where
  "disconnected_session = fst (disconnectBeacon awaiting_session)"

definition example_body :: verify_body where
  "example_body =
     \<lparr>beaconIdHex = ''a1b2c3d4e5f60708'', nonceHex = ''00112233445566778899aabbccddeeff'',
      tsMs = ''1700000000000'', sigHex = replicate 128 (CHR ''0'')\<rparr>"

text \<open>The same request with the timestamp \<open>2^64 + 1\<close>.\<close>

definition wrap_body :: verify_body where
  "wrap_body = example_body\<lparr>tsMs := ''18446744073709551617''\<rparr>"


section \<open>Hex codec: the round trip\<close>

declare toString16.simps [simp del]
declare decimalString.simps [simp del]

lemma hexChar_0: "hexChar 0 = CHR ''0''"
  by (simp add: hexChar_def char_of_def bit_0)

lemma unat_u8_of_nat: "k < 256 \<Longrightarrow> unat (of_nat k :: u8) = k"
  by (simp add: unat_of_nat)

lemma unat_u8_less: "unat (x :: u8) < 256"
  using unsigned_less [of x, where ?'a = nat] by simp

lemma toString16_byte:
  "n < 256 \<Longrightarrow> padStart 2 (CHR ''0'') (toString16 n) = [hexChar (n div 16), hexChar (n mod 16)]"
proof (cases "n < 16")
  case True
  then show ?thesis by (simp add: padStart_def toString16.simps [of n] hexChar_0)
next
  case False
  assume "n < 256"
  then have "n div 16 < 16" by simp
  with False show ?thesis
    by (simp add: padStart_def toString16.simps [of n] toString16.simps [of "n div 16"])
qed

lemma bytesToHex_Nil: "bytesToHex [] = []"
  by (simp add: bytesToHex_def)

lemma bytesToHex_Cons:
  "bytesToHex (x # xs) = hexChar (unat x div 16) # hexChar (unat x mod 16) # bytesToHex xs"
  by (simp add: bytesToHex_def toString16_byte [OF unat_u8_less])

lemma length_bytesToHex: "length (bytesToHex b) = 2 * length b"
  by (induction b) (simp_all add: bytesToHex_Nil bytesToHex_Cons)

lemma digitVal16_hexChar: "d < 16 \<Longrightarrow> digitVal16 (hexChar d) = Some d"
  by (auto simp: digitVal16_def hexChar_def Let_def)

lemma is_lower_hex_hexChar: "d < 16 \<Longrightarrow> is_lower_hex (hexChar d)"
  by (auto simp: is_lower_hex_def hexChar_def Let_def)

lemma lower_hex_toLowerCase: "is_lower_hex c \<Longrightarrow> toLowerCase_char c = c"
  by (auto simp: is_lower_hex_def toLowerCase_char_def Let_def)

lemma is_hex_toLowerCase: "is_hex c \<Longrightarrow> is_lower_hex (toLowerCase_char c)"
  by (auto simp: is_lower_hex_def is_hex_def toLowerCase_char_def Let_def)

lemma is_lower_hex_is_hex: "is_lower_hex c \<Longrightarrow> is_hex c"
  by (auto simp: is_lower_hex_def is_hex_def Let_def)

lemma digitVal16_lower: "is_lower_hex c \<Longrightarrow> \<exists>d<16. digitVal16 c = Some d \<and> hexChar d = c"
  by (auto simp: is_lower_hex_def digitVal16_def hexChar_def Let_def)

lemma length_toLowerCase: "length (toLowerCase s) = length s"
  by (simp add: toLowerCase_def)

lemma toLowerCase_lower: "list_all is_lower_hex s \<Longrightarrow> toLowerCase s = s"
  by (induction s) (simp_all add: toLowerCase_def lower_hex_toLowerCase)

lemma toLowerCase_hex: "list_all is_hex s \<Longrightarrow> list_all is_lower_hex (toLowerCase s)"
  by (induction s) (simp_all add: toLowerCase_def is_hex_toLowerCase)

lemma bytesToHex_lower: "list_all is_lower_hex (bytesToHex b)"
proof (induction b)
  case Nil
  show ?case by (simp add: bytesToHex_Nil)
next
  case (Cons x xs)
  have "unat x div 16 < 16" "unat x mod 16 < 16"
    using unat_u8_less [of x] by simp_all
  then show ?case using Cons.IH by (simp add: bytesToHex_Cons is_lower_hex_hexChar)
qed

text \<open>The loop of \<open>hexToBytes\<close> consumes two characters for each byte.\<close>

lemma hexToBytes_loop_Nil: "hexToBytes_loop [] = []"
  by (simp add: hexToBytes_loop_def)

lemma hexToBytes_loop_Cons2:
  "hexToBytes_loop (a # b # s) = toUint8 (parseInt16 [a, b]) # hexToBytes_loop s"
proof -
  have "[0 ..< length (a # b # s) div 2] = 0 # map Suc [0 ..< length s div 2]"
    by (simp add: upt_conv_Cons map_Suc_upt del: upt_Suc)
  then show ?thesis
    by (simp add: hexToBytes_loop_def slice_def comp_def del: upt_Suc)
qed

lemma length_hexToBytes_loop: "length (hexToBytes_loop s) = length s div 2"
  by (simp add: hexToBytes_loop_def)

lemma parseInt16_pair:
  "a < 16 \<Longrightarrow> b < 16 \<Longrightarrow> parseInt16 [hexChar a, hexChar b] = Some (16 * a + b)"
  by (simp add: parseInt16_def digitVal16_hexChar)

lemma hexToBytes_loop_encode: "hexToBytes_loop (bytesToHex b) = b"
proof (induction b)
  case Nil
  show ?case by (simp add: bytesToHex_Nil hexToBytes_loop_Nil)
next
  case (Cons x xs)
  have lt: "unat x < 256" by (rule unat_u8_less)
  then have "toUint8 (parseInt16 [hexChar (unat x div 16), hexChar (unat x mod 16)]) = x"
    by (simp add: parseInt16_pair toUint8_def)
  then show ?case using Cons.IH by (simp add: bytesToHex_Cons hexToBytes_loop_Cons2)
qed

lemma encode_hexToBytes_loop:
  "list_all is_lower_hex s \<Longrightarrow> even (length s) \<Longrightarrow> bytesToHex (hexToBytes_loop s) = s"
proof (induction s rule: induct_list012)
  case 1
  show ?case by (simp add: hexToBytes_loop_Nil bytesToHex_Nil)
next
  case (2 x)
  then show ?case by simp
next
  case (3 a b s)
  from "3.prems"(1) have la: "is_lower_hex a" and lb: "is_lower_hex b" by simp_all
  from digitVal16_lower [OF la] obtain da
    where da: "da < 16" "digitVal16 a = Some da" "hexChar da = a" by blast
  from digitVal16_lower [OF lb] obtain db
    where db: "db < 16" "digitVal16 b = Some db" "hexChar db = b" by blast
  have v: "16 * da + db < 256" using da db by simp
  have "toUint8 (parseInt16 [a, b]) = (of_nat (16 * da + db) :: u8)"
    using da db by (simp add: parseInt16_def toUint8_def)
  moreover have "unat (of_nat (16 * da + db) :: u8) = 16 * da + db"
    using v unat_u8_of_nat [of "16 * da + db"] by blast
  moreover have "(16 * da + db) div 16 = da" "(16 * da + db) mod 16 = db"
    using da db by simp_all
  ultimately have "bytesToHex (hexToBytes_loop (a # b # s)) = a # b # bytesToHex (hexToBytes_loop s)"
    using da db by (simp add: hexToBytes_loop_Cons2 bytesToHex_Cons)
  then show ?case using "3.IH"(1) "3.prems" by simp
qed

lemma hexToBytes_ok:
  assumes "list_all is_hex s" and "even (length s)"
  shows "hexToBytes s = Inr (hexToBytes_loop (toLowerCase s))"
  using assms toLowerCase_hex [of s]
  by (simp add: hexToBytes_def Let_def re_lower_hex_star_def length_toLowerCase
      even_iff_mod_2_eq_zero)

lemma hexToBytes_odd: "odd (length s) \<Longrightarrow> hexToBytes s = Inl InvalidHex"
  by (simp add: hexToBytes_def Let_def length_toLowerCase odd_iff_mod_2_eq_one)

lemma hexToBytes_length:
  "hexToBytes s = Inr b \<Longrightarrow> length s = 2 * length b"
  by (auto simp: hexToBytes_def Let_def length_toLowerCase length_hexToBytes_loop
      split: if_splits)

text \<open>
  C8. Decoding the encoding of any byte sequence gives the sequence back; and a
  string of hex digits of even length decodes to bytes whose encoding is the string in
  lower case.
\<close>

theorem hex_round_trip:
  "hexToBytes (bytesToHex b) = Inr b \<and>
   (list_all is_hex s \<and> even (length s) \<longrightarrow>
      (\<exists>b'. hexToBytes s = Inr b' \<and> bytesToHex b' = toLowerCase s))"
proof
  have "list_all is_hex (bytesToHex b)"
    using bytesToHex_lower [of b] by (simp add: list_all_iff is_lower_hex_is_hex)
  then have "hexToBytes (bytesToHex b) = Inr (hexToBytes_loop (toLowerCase (bytesToHex b)))"
    by (rule hexToBytes_ok) (simp add: length_bytesToHex)
  then show "hexToBytes (bytesToHex b) = Inr b"
    by (simp add: toLowerCase_lower [OF bytesToHex_lower] hexToBytes_loop_encode)
next
  show "list_all is_hex s \<and> even (length s) \<longrightarrow>
      (\<exists>b'. hexToBytes s = Inr b' \<and> bytesToHex b' = toLowerCase s)"
  proof
    assume h: "list_all is_hex s \<and> even (length s)"
    then have "hexToBytes s = Inr (hexToBytes_loop (toLowerCase s))"
      by (simp add: hexToBytes_ok)
    moreover have "bytesToHex (hexToBytes_loop (toLowerCase s)) = toLowerCase s"
      using h by (intro encode_hexToBytes_loop toLowerCase_hex) (simp_all add: length_toLowerCase)
    ultimately show "\<exists>b'. hexToBytes s = Inr b' \<and> bytesToHex b' = toLowerCase s"
      by blast
  qed
qed

theorem hex_round_trip_witness:
  "hexToBytes (bytesToHex [0, 255, 160]) = Inr [0, 255, 160] \<and>
   list_all is_hex ''00FFa0'' \<and> even (length ''00FFa0'') \<and>
   (\<exists>b'. hexToBytes ''00FFa0'' = Inr b' \<and> bytesToHex b' = ''00ffa0'')"
proof -
  have h: "list_all is_hex ''00FFa0'' \<and> even (length ''00FFa0'')"
    by (simp add: is_hex_def)
  have l: "toLowerCase ''00FFa0'' = ''00ffa0''"
    by (simp add: toLowerCase_def toLowerCase_char_def char_of_def bit_Suc_0_iff)
  show ?thesis
    using hex_round_trip [of "[0, 255, 160]" "''00FFa0''"] h l by simp
qed

section \<open>Message builder: timestamps\<close>

lemma is_digit_not_space: "is_digit c \<Longrightarrow> \<not> is_js_space c"
  by (auto simp: is_digit_def is_js_space_def Let_def)

lemma is_digit_digitVal16: "is_digit c \<Longrightarrow> digitVal16 c = Some (of_char c - 48) \<and> of_char c - 48 < (10::nat)"
  by (auto simp: is_digit_def digitVal16_def Let_def)

lemma is_digit_not_sign:
  "is_digit c \<Longrightarrow> c \<noteq> CHR ''+'' \<and> c \<noteq> CHR ''-'' \<and> c \<noteq> CHR ''x'' \<and> c \<noteq> CHR ''X''
     \<and> c \<noteq> CHR ''o'' \<and> c \<noteq> CHR ''O'' \<and> c \<noteq> CHR ''b'' \<and> c \<noteq> CHR ''B''"
  by (auto simp: is_digit_def Let_def)

lemma trim_digits: "list_all is_digit s \<Longrightarrow> trim s = s"
proof (cases s rule: rev_cases)
  case Nil
  then show ?thesis by (simp add: trim_def)
next
  case (snoc ys y)
  assume d: "list_all is_digit s"
  with snoc have "\<not> is_js_space y" by (simp add: is_digit_not_space)
  moreover have "dropWhile is_js_space s = s"
    using d by (cases s) (simp_all add: is_digit_not_space)
  ultimately show ?thesis using snoc by (simp add: trim_def)
qed

lemma digitsValue_digits:
  "list_all is_digit s \<Longrightarrow>
     digitsValue 10 acc s = Some (foldl (\<lambda>a c. 10 * a + (of_char c - 48)) acc s)"
proof (induction s arbitrary: acc)
  case Nil
  show ?case by simp
next
  case (Cons c cs)
  then have "is_digit c" and "list_all is_digit cs" by simp_all
  then show ?case using Cons.IH is_digit_digitVal16 [of c] by simp
qed

lemma StrIntegerLiteral_digits:
  assumes "list_all is_digit s"
  shows "StrIntegerLiteral s = Some (int (decimalValue s))"
proof (cases s rule: StrIntegerLiteral.cases)
  case 1
  then show ?thesis by (simp add: decimalValue_def)
next
  case (2 c)
  with assms show ?thesis
    using digitsValue_digits [of "[c]" 0] by (simp add: radixDigits_def decimalValue_def)
next
  case (3 c d cs)
  with assms have "is_digit c" "is_digit d" by simp_all
  then have "StrIntegerLiteral (c # d # cs) = map_option int (radixDigits 10 (c # d # cs))"
    using is_digit_not_sign [of c] is_digit_not_sign [of d] by simp
  with 3 assms show ?thesis
    using digitsValue_digits [of s 0] by (simp add: radixDigits_def decimalValue_def)
qed

lemma StringToBigInt_digits:
  "list_all is_digit s \<Longrightarrow> StringToBigInt s = Some (int (decimalValue s))"
  by (simp add: StringToBigInt_def trim_digits StrIntegerLiteral_digits)

text \<open>Every character of a string that \<open>BigInt\<close> accepts is in \<open>bigint_char\<close>.\<close>

lemma digitVal16_Some_hex: "digitVal16 c = Some d \<Longrightarrow> is_hex c"
  by (auto simp: digitVal16_def is_hex_def Let_def split: if_splits)

lemma digitsValue_Some_hex: "digitsValue r acc s = Some v \<Longrightarrow> list_all is_hex s"
  by (induction s arbitrary: acc)
     (auto split: option.splits if_splits dest: digitVal16_Some_hex)

lemma radixDigits_Some_chars: "radixDigits r s = Some v \<Longrightarrow> list_all bigint_char s"
proof -
  assume "radixDigits r s = Some v"
  then have "list_all is_hex s"
    by (auto simp: radixDigits_def split: if_splits dest: digitsValue_Some_hex)
  then show ?thesis by (simp add: list_all_iff bigint_char_def)
qed

lemma bigint_char_specials:
  "bigint_char CHR ''+''" "bigint_char CHR ''-''" "bigint_char CHR ''0''"
  "bigint_char CHR ''x''" "bigint_char CHR ''X''" "bigint_char CHR ''o''" "bigint_char CHR ''O''"
  "bigint_char CHR ''b''" "bigint_char CHR ''B''"
  by (simp_all add: bigint_char_def is_hex_def)

lemma map_option_SomeD: "map_option f x = Some n \<Longrightarrow> \<exists>v. x = Some v"
  by (cases x) simp_all

lemma StrIntegerLiteral_Some_chars:
  assumes a: "StrIntegerLiteral s = Some n"
  shows "list_all bigint_char s"
proof (cases s rule: StrIntegerLiteral.cases)
  case 1
  then show ?thesis by simp
next
  case (2 c)
  with a have "map_option int (radixDigits 10 [c]) = Some n" by simp
  then obtain v where "radixDigits 10 [c] = Some v" by (blast dest: map_option_SomeD)
  with 2 show ?thesis using radixDigits_Some_chars [of 10 "[c]"] by simp
next
  case (3 c d cs)
  let ?hex = "c = CHR ''0'' \<and> (d = CHR ''x'' \<or> d = CHR ''X'')"
  let ?oct = "c = CHR ''0'' \<and> (d = CHR ''o'' \<or> d = CHR ''O'')"
  let ?bin = "c = CHR ''0'' \<and> (d = CHR ''b'' \<or> d = CHR ''B'')"
  consider (plus) "c = CHR ''+''" | (minus) "c \<noteq> CHR ''+''" "c = CHR ''-''"
    | (hex) "c \<noteq> CHR ''+''" "c \<noteq> CHR ''-''" ?hex
    | (oct) "c \<noteq> CHR ''+''" "c \<noteq> CHR ''-''" "\<not> ?hex" ?oct
    | (bin) "c \<noteq> CHR ''+''" "c \<noteq> CHR ''-''" "\<not> ?hex" "\<not> ?oct" ?bin
    | (dec) "c \<noteq> CHR ''+''" "c \<noteq> CHR ''-''" "\<not> ?hex" "\<not> ?oct" "\<not> ?bin"
    by blast
  then show ?thesis
  proof cases
    case plus
    with a 3 have "map_option int (radixDigits 10 (d # cs)) = Some n" by simp
    then obtain v where "radixDigits 10 (d # cs) = Some v" by (blast dest: map_option_SomeD)
    then have "list_all bigint_char (d # cs)" by (rule radixDigits_Some_chars)
    with plus 3 show ?thesis by (simp add: bigint_char_specials)
  next
    case minus
    with a 3 have "map_option (\<lambda>v. - int v) (radixDigits 10 (d # cs)) = Some n" by simp
    then obtain v where "radixDigits 10 (d # cs) = Some v" by (blast dest: map_option_SomeD)
    then have "list_all bigint_char (d # cs)" by (rule radixDigits_Some_chars)
    with minus 3 show ?thesis by (simp add: bigint_char_specials)
  next
    case hex
    with a 3 have "map_option int (radixDigits 16 cs) = Some n" by simp
    then obtain v where "radixDigits 16 cs = Some v" by (blast dest: map_option_SomeD)
    then have "list_all bigint_char cs" by (rule radixDigits_Some_chars)
    moreover have "bigint_char c" "bigint_char d" using hex bigint_char_specials by auto
    ultimately show ?thesis using 3 by simp
  next
    case oct
    with a 3 have "map_option int (radixDigits 8 cs) = Some n" by simp
    then obtain v where "radixDigits 8 cs = Some v" by (blast dest: map_option_SomeD)
    then have "list_all bigint_char cs" by (rule radixDigits_Some_chars)
    moreover have "bigint_char c" "bigint_char d" using oct bigint_char_specials by auto
    ultimately show ?thesis using 3 by simp
  next
    case bin
    with a 3 have "map_option int (radixDigits 2 cs) = Some n" by simp
    then obtain v where "radixDigits 2 cs = Some v" by (blast dest: map_option_SomeD)
    then have "list_all bigint_char cs" by (rule radixDigits_Some_chars)
    moreover have "bigint_char c" "bigint_char d" using bin bigint_char_specials by auto
    ultimately show ?thesis using 3 by simp
  next
    case dec
    with a 3 have "map_option int (radixDigits 10 (c # d # cs)) = Some n" by simp
    then obtain v where "radixDigits 10 (c # d # cs) = Some v" by (blast dest: map_option_SomeD)
    then have "list_all bigint_char (c # d # cs)" by (rule radixDigits_Some_chars)
    with 3 show ?thesis by simp
  qed
qed

lemma set_dropWhile_cases: "x \<in> set xs \<Longrightarrow> x \<in> set (dropWhile P xs) \<or> P x"
  by (induction xs) auto

lemma set_trim_cases: "c \<in> set s \<Longrightarrow> c \<in> set (trim s) \<or> is_js_space c"
proof -
  assume "c \<in> set s"
  then have "c \<in> set (dropWhile is_js_space s) \<or> is_js_space c"
    by (rule set_dropWhile_cases)
  then show ?thesis
    using set_dropWhile_cases [of c "rev (dropWhile is_js_space s)" is_js_space]
    by (auto simp: trim_def)
qed

lemma StringToBigInt_Some_chars:
  assumes "StringToBigInt s = Some n"
  shows "list_all bigint_char s"
proof -
  have t: "list_all bigint_char (trim s)"
    using assms by (simp add: StringToBigInt_def StrIntegerLiteral_Some_chars)
  have "bigint_char c" if "c \<in> set s" for c
    using set_trim_cases [OF that] t by (auto simp: list_all_iff bigint_char_def)
  then show ?thesis by (simp add: list_all_iff)
qed

lemma StringToBigInt_bad_char:
  "\<exists>c\<in>set s. \<not> bigint_char c \<Longrightarrow> StringToBigInt s = None"
  using StringToBigInt_Some_chars [of s] by (cases "StringToBigInt s") (auto simp: list_all_iff)

section \<open>Message builder: the eight bytes\<close>

lemma rev_upt_8: "rev [0 ..< 8] = [7, 6, 5, 4, 3, 2, 1, 0::nat]"
  by (simp add: upt_rec)

lemma u64_loop:
  "foldl (\<lambda>out i. out[i := f i]) (replicate 8 (0::u8)) (rev [0 ..< 8])
     = [f 0, f 1, f 2, f 3, f 4, f 5, f 6, f 7]"
  by (simp add: rev_upt_8 eval_nat_numeral)

lemma be64_explicit:
  "be64 v = [of_nat (v div 256 ^ 7), of_nat (v div 256 ^ 6), of_nat (v div 256 ^ 5),
             of_nat (v div 256 ^ 4), of_nat (v div 256 ^ 3), of_nat (v div 256 ^ 2),
             of_nat (v div 256 ^ 1), of_nat (v div 256 ^ 0)]"
  by (simp add: be64_def upt_rec)

lemma pow256: "(256::nat) ^ k = 2 ^ (k * 8)"
proof -
  have "(256::nat) ^ k = (2 ^ 8) ^ k" by simp
  also have "\<dots> = 2 ^ (k * 8)" by (simp only: power_mult [symmetric] mult.commute)
  finally show ?thesis .
qed

lemma be_byte:
  assumes "k \<le> 7"
  shows "(of_int (drop_bit (k * 8) n AND 255) :: u8) = of_nat (nat (n mod 2 ^ 64) div 256 ^ k)"
proof -
  have "(of_nat (nat (n mod 2 ^ 64) div 256 ^ k) :: u8)
      = of_nat (nat (drop_bit (k * 8) (take_bit 64 n)))"
    by (simp add: pow256 drop_bit_eq_div take_bit_eq_mod nat_div_distrib nat_power_eq)
  also have "\<dots> = of_int (drop_bit (k * 8) (take_bit 64 n))"
    by simp
  also have "\<dots> = of_int (drop_bit (k * 8) n AND 255)"
  proof (rule bit_word_eqI)
    fix i assume "i < LENGTH(8)"
    then have i: "i < 8" by simp
    have m: "(255::int) = mask 8" by (simp add: mask_eq_exp_minus_1)
    from i assms have "k * 8 + i < 64" by simp
    with i show "bit (of_int (drop_bit (k * 8) (take_bit 64 n)) :: u8) i
        = bit (of_int (drop_bit (k * 8) n AND 255) :: u8) i"
      by (simp add: bit_simps m)
  qed
  finally show ?thesis by simp
qed

lemma u64_bytes:
  "foldl (\<lambda>out i. out[i := of_int (drop_bit ((7 - i) * 8) n AND 255)]) (replicate 8 (0::u8))
     (rev [0 ..< 8]) = be64 (nat (n mod 2 ^ 64))"
  using be_byte [of 0 n] be_byte [of 1 n] be_byte [of 2 n] be_byte [of 3 n]
    be_byte [of 4 n] be_byte [of 5 n] be_byte [of 6 n] be_byte [of 7 n]
  by (simp only: u64_loop be64_explicit) simp

lemma length_be64: "length (be64 v) = 8"
  by (simp add: be64_def)

lemma u64StringTo8BE_digits:
  "list_all is_digit s \<Longrightarrow> u64StringTo8BE s = Inr (be64 (decimalValue s mod 2 ^ 64))"
proof -
  assume "list_all is_digit s"
  then have "StringToBigInt s = Some (int (decimalValue s))"
    by (rule StringToBigInt_digits)
  moreover have "nat (int (decimalValue s) mod 2 ^ 64) = decimalValue s mod 2 ^ 64"
    by (simp add: nat_mod_distrib nat_power_eq)
  ultimately show ?thesis
    by (simp add: u64StringTo8BE_def u64_bytes)
qed

text \<open>\<open>be64\<close> is the big-endian encoding: read back, the eight bytes give the value.\<close>

lemma unat_byte: "unat (of_nat m :: u8) = m mod 256"
  by (simp add: unat_of_nat)

lemma beValue_snoc: "beValue (xs @ [b]) = 256 * beValue xs + unat b"
  by (simp add: beValue_def)

lemma beValue_bytes:
  "beValue (map (\<lambda>i. (of_nat (v div 256 ^ (k - 1 - i)) :: u8)) [0 ..< k]) = v mod 256 ^ k"
proof (induction k arbitrary: v)
  case 0
  show ?case by (simp add: beValue_def)
next
  case (Suc k)
  let ?f = "\<lambda>i. (of_nat (v div 256 ^ (Suc k - 1 - i)) :: u8)"
  let ?g = "\<lambda>i. (of_nat ((v div 256) div 256 ^ (k - 1 - i)) :: u8)"
  have A: "map ?f [0 ..< k] = map ?g [0 ..< k]"
  proof (rule map_cong [OF refl])
    fix i assume "i \<in> set [0 ..< k]"
    then have "Suc k - 1 - i = Suc (k - 1 - i)" by auto
    then show "?f i = ?g i"
      by (simp add: div_mult2_eq)
  qed
  have B: "map ?f [0 ..< Suc k] = map ?f [0 ..< k] @ [of_nat v]"
    by simp
  have "beValue (map ?f [0 ..< Suc k]) = 256 * beValue (map ?g [0 ..< k]) + unat (of_nat v :: u8)"
    by (simp only: B A beValue_snoc)
  also have "\<dots> = 256 * ((v div 256) mod 256 ^ k) + v mod 256"
    by (simp only: Suc.IH unat_byte)
  also have "\<dots> = v mod 256 ^ Suc k"
    by (simp add: mod_mult2_eq)
  finally show ?case .
qed

lemma beValue_be64: "beValue (be64 v) = v mod 2 ^ 64"
  using beValue_bytes [of v 8] by (simp add: be64_def)

section \<open>Message builder: \<open>buildMessage\<close>\<close>

lemma typedSet_nonce:
  "length nonce = 16 \<Longrightarrow> typedSet (replicate 24 0) nonce 0 = Inr (nonce @ replicate 8 0)"
  by (simp add: typedSet_def)

lemma typedSet_ts:
  "length nonce = 16 \<Longrightarrow> length ts = 8 \<Longrightarrow> typedSet (nonce @ replicate 8 0) ts 16 = Inr (nonce @ ts)"
  by (simp add: typedSet_def)

lemma buildMessage_digits:
  assumes "hexToBytes nonce_hex = Inr nonce" and "length nonce = 16" and "list_all is_digit ts"
  shows "buildMessage nonce_hex ts = Inr (nonce @ be64 (decimalValue ts mod 2 ^ 64))"
  using assms
  by (simp add: buildMessage_def u64StringTo8BE_digits typedSet_nonce typedSet_ts length_be64)

lemma buildMessage_bad_timestamp:
  assumes "hexToBytes nonce_hex = Inr nonce" and "length nonce = 16" and "StringToBigInt ts = None"
  shows "buildMessage nonce_hex ts = Inl BigIntSyntaxError"
  using assms by (simp add: buildMessage_def u64StringTo8BE_def)

lemma buildMessage_fails_without_BigInt:
  assumes "StringToBigInt ts = None"
  shows "\<exists>e. buildMessage nonce_hex ts = Inl e"
  using assms by (simp add: buildMessage_def u64StringTo8BE_def split: sum.splits)

text \<open>The nonce of the specification's example: 32 hex digits, 16 bytes.\<close>

lemma example_nonce_chars:
  "list_all is_hex ''00112233445566778899aabbccddeeff'' \<and>
   length ''00112233445566778899aabbccddeeff'' = 32"
  by (simp add: is_hex_def)

lemma example_nonce:
  "hexToBytes ''00112233445566778899aabbccddeeff''
     = Inr [0, 17, 34, 51, 68, 85, 102, 119, 136, 153, 170, 187, 204, 221, 238, 255]"
proof -
  have l: "list_all is_lower_hex ''00112233445566778899aabbccddeeff''"
    by (simp add: is_lower_hex_def)
  have "hexToBytes ''00112233445566778899aabbccddeeff''
      = Inr (hexToBytes_loop ''00112233445566778899aabbccddeeff'')"
    using l by (simp add: hexToBytes_def Let_def re_lower_hex_star_def toLowerCase_lower [OF l])
  then show ?thesis
    by (simp add: hexToBytes_loop_Cons2 hexToBytes_loop_Nil parseInt16_def digitVal16_def
        toUint8_def)
qed

lemma decimalValue_example: "decimalValue ''1700000000000'' = 1700000000000"
  by (simp add: decimalValue_def)

lemma decimalValue_2_64: "decimalValue ''18446744073709551616'' = 2 ^ 64"
  by (simp add: decimalValue_def)

lemma decimalValue_2_64_1: "decimalValue ''18446744073709551617'' = 2 ^ 64 + 1"
  by (simp add: decimalValue_def)

lemma be64_example: "be64 1700000000000 = [0, 0, 1, 139, 207, 229, 104, 0]"
  by (simp add: be64_explicit)

lemma be64_0: "be64 0 = [0, 0, 0, 0, 0, 0, 0, 0]"
  by (simp add: be64_explicit)

lemma be64_1: "be64 1 = [0, 0, 0, 0, 0, 0, 0, 1]"
  by (simp add: be64_explicit)

lemma digits_example:
  "re_digits_plus ''1700000000000''" "re_digits_plus ''18446744073709551616''"
  "re_digits_plus ''18446744073709551617''" "re_digits_plus ''1''"
  by (simp_all add: re_digits_plus_def is_digit_def)

text \<open>
  C4. For a nonce that decodes to 16 bytes and a decimal timestamp below \<open>2^64\<close>,
  \<open>buildMessage\<close> returns 24 bytes: the nonce, then the eight big-endian bytes of the
  timestamp (read back as a big-endian number they give the timestamp). For the
  timestamp 1700000000000 the last eight bytes are 00 00 01 8b cf e5 68 00.
\<close>

theorem buildMessage_layout:
  assumes "hexToBytes nonce_hex = Inr nonce" and "length nonce = 16"
    and "re_digits_plus ts" and "decimalValue ts < 2 ^ 64"
  shows "\<exists>msg. buildMessage nonce_hex ts = Inr msg \<and> length msg = 24 \<and>
           take 16 msg = nonce \<and> drop 16 msg = be64 (decimalValue ts) \<and>
           beValue (drop 16 msg) = decimalValue ts \<and>
           (ts = ''1700000000000'' \<longrightarrow> drop 16 msg = [0, 0, 1, 139, 207, 229, 104, 0])"
proof -
  from assms(3) have d: "list_all is_digit ts" by (simp add: re_digits_plus_def)
  from assms(4) have m: "decimalValue ts mod 2 ^ 64 = decimalValue ts" by simp
  have "buildMessage nonce_hex ts = Inr (nonce @ be64 (decimalValue ts))"
    using buildMessage_digits [OF assms(1) assms(2) d] m by simp
  moreover have "beValue (be64 (decimalValue ts)) = decimalValue ts"
    using m by (simp add: beValue_be64)
  moreover have "ts = ''1700000000000'' \<longrightarrow> be64 (decimalValue ts) = [0, 0, 1, 139, 207, 229, 104, 0]"
    by (simp add: decimalValue_example be64_example)
  ultimately show ?thesis using assms(2) by (simp add: length_be64)
qed

theorem buildMessage_layout_witness:
  "hexToBytes ''00112233445566778899aabbccddeeff''
     = Inr [0, 17, 34, 51, 68, 85, 102, 119, 136, 153, 170, 187, 204, 221, 238, 255] \<and>
   re_digits_plus ''1700000000000'' \<and> decimalValue ''1700000000000'' < 2 ^ 64 \<and>
   buildMessage ''00112233445566778899aabbccddeeff'' ''1700000000000''
     = Inr [0, 17, 34, 51, 68, 85, 102, 119, 136, 153, 170, 187, 204, 221, 238, 255,
            0, 0, 1, 139, 207, 229, 104, 0]"
proof -
  have v: "decimalValue ''1700000000000'' < 2 ^ 64" by (simp add: decimalValue_example)
  have l: "length [0, 17, 34, 51, 68, 85, 102, 119, 136, 153, 170, 187, 204, 221, 238, 255 :: u8] = 16"
    by simp
  from buildMessage_layout [OF example_nonce l digits_example(1) v]
  obtain msg where m: "buildMessage ''00112233445566778899aabbccddeeff'' ''1700000000000'' = Inr msg"
    "take 16 msg = [0, 17, 34, 51, 68, 85, 102, 119, 136, 153, 170, 187, 204, 221, 238, 255]"
    "drop 16 msg = [0, 0, 1, 139, 207, 229, 104, 0]"
    by blast
  have "msg = take 16 msg @ drop 16 msg" by simp
  with m have "msg = [0, 17, 34, 51, 68, 85, 102, 119, 136, 153, 170, 187, 204, 221, 238, 255,
            0, 0, 1, 139, 207, 229, 104, 0]" by simp
  with m(1) show ?thesis using example_nonce digits_example(1) v by simp
qed

text \<open>
  C10. On a string of decimal digits \<open>u64StringTo8BE\<close> never fails: it returns the
  big-endian bytes of the value modulo \<open>2^64\<close>. Two digit strings whose values are
  congruent modulo \<open>2^64\<close> therefore give the same eight bytes and the same message.
\<close>

theorem u64StringTo8BE_wraps:
  "(re_digits_plus msStr \<longrightarrow>
      u64StringTo8BE msStr = Inr (be64 (decimalValue msStr mod 2 ^ 64)) \<and>
      (\<exists>bs. u64StringTo8BE msStr = Inr bs \<and> beValue bs = decimalValue msStr mod 2 ^ 64)) \<and>
   (re_digits_plus a \<and> re_digits_plus b \<and>
    decimalValue a mod 2 ^ 64 = decimalValue b mod 2 ^ 64 \<longrightarrow>
      u64StringTo8BE a = u64StringTo8BE b \<and> buildMessage nonce_hex a = buildMessage nonce_hex b)"
proof (intro conjI impI)
  assume "re_digits_plus msStr"
  then have "list_all is_digit msStr" by (simp add: re_digits_plus_def)
  then show e: "u64StringTo8BE msStr = Inr (be64 (decimalValue msStr mod 2 ^ 64))"
    by (rule u64StringTo8BE_digits)
  have "beValue (be64 (decimalValue msStr mod 2 ^ 64)) = decimalValue msStr mod 2 ^ 64"
    by (simp add: beValue_be64)
  with e show "\<exists>bs. u64StringTo8BE msStr = Inr bs \<and> beValue bs = decimalValue msStr mod 2 ^ 64"
    by blast
next
  assume h: "re_digits_plus a \<and> re_digits_plus b \<and>
    decimalValue a mod 2 ^ 64 = decimalValue b mod 2 ^ 64"
  then have "list_all is_digit a" "list_all is_digit b" by (simp_all add: re_digits_plus_def)
  then have "u64StringTo8BE a = Inr (be64 (decimalValue a mod 2 ^ 64))"
    "u64StringTo8BE b = Inr (be64 (decimalValue b mod 2 ^ 64))"
    by (simp_all add: u64StringTo8BE_digits)
  with h show e: "u64StringTo8BE a = u64StringTo8BE b" by simp
  show "buildMessage nonce_hex a = buildMessage nonce_hex b"
    by (simp only: buildMessage_def e)
qed

theorem u64StringTo8BE_wraps_witness:
  "re_digits_plus ''18446744073709551617'' \<and> re_digits_plus ''1'' \<and>
   decimalValue ''18446744073709551617'' mod 2 ^ 64 = decimalValue ''1'' mod 2 ^ 64 \<and>
   u64StringTo8BE ''18446744073709551617'' = Inr [0, 0, 0, 0, 0, 0, 0, 1] \<and>
   u64StringTo8BE ''18446744073709551617'' = u64StringTo8BE ''1'' \<and>
   buildMessage ''00112233445566778899aabbccddeeff'' ''18446744073709551617''
     = buildMessage ''00112233445566778899aabbccddeeff'' ''1''"
proof -
  have v: "decimalValue ''18446744073709551617'' mod 2 ^ 64 = decimalValue ''1'' mod 2 ^ 64"
    by (simp add: decimalValue_def)
  have w: "decimalValue ''18446744073709551617'' mod 2 ^ 64 = 1"
    by (simp add: decimalValue_def)
  note t = u64StringTo8BE_wraps [of "''18446744073709551617''" "''18446744073709551617''" "''1''"
        "''00112233445566778899aabbccddeeff''"]
  from t digits_example(3)
  have "u64StringTo8BE ''18446744073709551617''
      = Inr (be64 (decimalValue ''18446744073709551617'' mod 2 ^ 64))"
    by blast
  then have a: "u64StringTo8BE ''18446744073709551617'' = Inr [0, 0, 0, 0, 0, 0, 0, 1]"
    by (simp only: w be64_1)
  from t digits_example(3) digits_example(4) v
  have b: "u64StringTo8BE ''18446744073709551617'' = u64StringTo8BE ''1'' \<and>
      buildMessage ''00112233445566778899aabbccddeeff'' ''18446744073709551617''
        = buildMessage ''00112233445566778899aabbccddeeff'' ''1''"
    by blast
  show ?thesis
    using digits_example(3) digits_example(4) v a b by blast
qed

text \<open>
  C3, as the claim states it, fails: the timestamp \<open>2^64\<close> is not refused but taken
  modulo \<open>2^64\<close>, and the string \<open>0x10\<close>, which has a character that is not a digit, is
  read as the hexadecimal literal 16.
\<close>

theorem buildMessage_overflow_counterexample:
  "decimalValue ''18446744073709551616'' = 2 ^ 64 \<and>
   buildMessage ''00112233445566778899aabbccddeeff'' ''18446744073709551616''
     = Inr [0, 17, 34, 51, 68, 85, 102, 119, 136, 153, 170, 187, 204, 221, 238, 255,
            0, 0, 0, 0, 0, 0, 0, 0] \<and>
   \<not> list_all is_digit ''0x10'' \<and>
   buildMessage ''00112233445566778899aabbccddeeff'' ''0x10''
     = Inr [0, 17, 34, 51, 68, 85, 102, 119, 136, 153, 170, 187, 204, 221, 238, 255,
            0, 0, 0, 0, 0, 0, 0, 16]"
proof -
  have d: "list_all is_digit ''18446744073709551616''"
    using digits_example(2) by (simp add: re_digits_plus_def)
  have l: "length [0, 17, 34, 51, 68, 85, 102, 119, 136, 153, 170, 187, 204, 221, 238, 255 :: u8] = 16"
    by simp
  have a: "buildMessage ''00112233445566778899aabbccddeeff'' ''18446744073709551616''
     = Inr [0, 17, 34, 51, 68, 85, 102, 119, 136, 153, 170, 187, 204, 221, 238, 255,
            0, 0, 0, 0, 0, 0, 0, 0]"
    using buildMessage_digits [OF example_nonce l d] by (simp add: decimalValue_2_64 be64_0)
  have x: "StringToBigInt ''0x10'' = Some 16"
    by (simp add: StringToBigInt_def trim_def is_js_space_def radixDigits_def digitVal16_def)
  have "u64StringTo8BE ''0x10'' = Inr (be64 (nat (16 mod 2 ^ 64)))"
    by (simp only: u64StringTo8BE_def x option.case u64_bytes)
  then have "u64StringTo8BE ''0x10'' = Inr [0, 0, 0, 0, 0, 0, 0, 16]"
    by (simp add: be64_explicit)
  then have b: "buildMessage ''00112233445566778899aabbccddeeff'' ''0x10''
     = Inr [0, 17, 34, 51, 68, 85, 102, 119, 136, 153, 170, 187, 204, 221, 238, 255,
            0, 0, 0, 0, 0, 0, 0, 16]"
    by (simp add: buildMessage_def example_nonce typedSet_def)
  have "\<not> list_all is_digit ''0x10''" by (simp add: is_digit_def)
  with a b show ?thesis by (simp add: decimalValue_2_64)
qed

text \<open>
  C3, amended. A timestamp string that \<open>BigInt\<close> cannot parse makes \<open>buildMessage\<close> fail:
  with the \<open>SyntaxError\<close> of \<open>BigInt\<close> when the nonce is well formed, with the invalid-hex
  error when the nonce is not a hex string of even length, and with the nonce-length
  error when it decodes to other than 16 bytes. Every string with a character other
  than a digit, a letter of a hexadecimal literal or of a prefix, a sign or white space
  is such a string, and so are \<open>12x\<close>, \<open>abc\<close>, \<open>1e3\<close> and \<open>1.5\<close>. A string that \<open>BigInt\<close>
  parses is never refused, whether it has a character that is not a digit (as \<open>0x10\<close>
  has) or not: the value enters the message modulo \<open>2^64\<close>; for a string of decimal
  digits that value is the decimal value.
\<close>

theorem buildMessage_timestamp:
  "(StringToBigInt bad = None \<longrightarrow>
      (hexToBytes nonce_hex = Inr nonce \<and> length nonce = 16 \<longrightarrow>
         buildMessage nonce_hex bad = Inl BigIntSyntaxError) \<and>
      (hexToBytes nonce_hex = Inr nonce \<and> length nonce \<noteq> 16 \<longrightarrow>
         buildMessage nonce_hex bad = Inl NonceNot16) \<and>
      (hexToBytes nonce_hex = Inl e \<longrightarrow>
         e = InvalidHex \<and> buildMessage nonce_hex bad = Inl InvalidHex) \<and>
      \<not> re_digits_plus bad) \<and>
   ((\<exists>c\<in>set bad. \<not> bigint_char c) \<longrightarrow> StringToBigInt bad = None) \<and>
   (StringToBigInt ts = Some n \<and> hexToBytes nonce_hex = Inr nonce \<and> length nonce = 16 \<longrightarrow>
      buildMessage nonce_hex ts = Inr (nonce @ be64 (nat (n mod 2 ^ 64)))) \<and>
   (re_digits_plus ts \<longrightarrow>
      StringToBigInt ts = Some (int (decimalValue ts)) \<and>
      (hexToBytes nonce_hex = Inr nonce \<and> length nonce = 16 \<longrightarrow>
         buildMessage nonce_hex ts = Inr (nonce @ be64 (decimalValue ts mod 2 ^ 64))))"
proof (intro conjI impI)
  assume n: "StringToBigInt bad = None"
  show "\<not> re_digits_plus bad"
    using n StringToBigInt_digits [of bad] by (auto simp: re_digits_plus_def)
  {
    assume "hexToBytes nonce_hex = Inr nonce \<and> length nonce = 16"
    then show "buildMessage nonce_hex bad = Inl BigIntSyntaxError"
      using n by (simp add: buildMessage_bad_timestamp)
  }
  {
    assume "hexToBytes nonce_hex = Inr nonce \<and> length nonce \<noteq> 16"
    then show "buildMessage nonce_hex bad = Inl NonceNot16"
      by (simp add: buildMessage_def)
  }
  {
    assume h: "hexToBytes nonce_hex = Inl e"
    then show "e = InvalidHex"
      by (auto simp: hexToBytes_def Let_def split: if_splits)
    with h show "buildMessage nonce_hex bad = Inl InvalidHex"
      by (simp add: buildMessage_def)
  }
next
  assume "\<exists>c\<in>set bad. \<not> bigint_char c"
  then show "StringToBigInt bad = None" by (rule StringToBigInt_bad_char)
next
  assume "StringToBigInt ts = Some n \<and> hexToBytes nonce_hex = Inr nonce \<and> length nonce = 16"
  then show "buildMessage nonce_hex ts = Inr (nonce @ be64 (nat (n mod 2 ^ 64)))"
    by (simp add: buildMessage_def u64StringTo8BE_def u64_bytes typedSet_nonce typedSet_ts
        length_be64)
next
  assume "re_digits_plus ts"
  then show "StringToBigInt ts = Some (int (decimalValue ts))"
    by (simp add: StringToBigInt_digits re_digits_plus_def)
next
  assume "re_digits_plus ts" and "hexToBytes nonce_hex = Inr nonce \<and> length nonce = 16"
  then show "buildMessage nonce_hex ts = Inr (nonce @ be64 (decimalValue ts mod 2 ^ 64))"
    by (simp add: buildMessage_digits re_digits_plus_def)
qed

lemma BigInt_rejects:
  "StringToBigInt ''12x'' = None" "StringToBigInt ''abc'' = None"
  "StringToBigInt ''1e3'' = None" "StringToBigInt ''1.5'' = None"
  by (simp_all add: StringToBigInt_def trim_def is_js_space_def radixDigits_def digitVal16_def)

theorem buildMessage_timestamp_witness:
  "StringToBigInt ''12x'' = None \<and> StringToBigInt ''abc'' = None \<and>
   StringToBigInt ''1e3'' = None \<and> (\<exists>c\<in>set ''1.5''. \<not> bigint_char c) \<and>
   hexToBytes ''00112233445566778899aabbccddeeff''
     = Inr [0, 17, 34, 51, 68, 85, 102, 119, 136, 153, 170, 187, 204, 221, 238, 255] \<and>
   length [0, 17, 34, 51, 68, 85, 102, 119, 136, 153, 170, 187, 204, 221, 238, 255 :: u8] = 16 \<and>
   buildMessage ''00112233445566778899aabbccddeeff'' ''12x'' = Inl BigIntSyntaxError \<and>
   buildMessage ''00112233445566778899aabbccddeeff'' ''abc'' = Inl BigIntSyntaxError \<and>
   buildMessage ''00112233445566778899aabbccddeeff'' ''1e3'' = Inl BigIntSyntaxError \<and>
   buildMessage ''00112233445566778899aabbccddeeff'' ''1.5'' = Inl BigIntSyntaxError \<and>
   hexToBytes ''0011223'' = Inl InvalidHex \<and>
   buildMessage ''0011223'' ''12x'' = Inl InvalidHex \<and>
   hexToBytes ''0011'' = Inr [0, 17] \<and> length [0, 17 :: u8] \<noteq> 16 \<and>
   buildMessage ''0011'' ''12x'' = Inl NonceNot16 \<and>
   re_digits_plus ''18446744073709551617'' \<and>
   buildMessage ''00112233445566778899aabbccddeeff'' ''18446744073709551617''
     = Inr ([0, 17, 34, 51, 68, 85, 102, 119, 136, 153, 170, 187, 204, 221, 238, 255]
            @ [0, 0, 0, 0, 0, 0, 0, 1])"
proof -
  let ?nonce = "[0, 17, 34, 51, 68, 85, 102, 119, 136, 153, 170, 187, 204, 221, 238, 255 :: u8]"
  have c: "\<exists>c\<in>set ''1.5''. \<not> bigint_char c"
    by (simp add: bigint_char_def is_hex_def is_js_space_def)
  have l: "length ?nonce = 16"
    by simp
  have m: "decimalValue ''18446744073709551617'' mod 2 ^ 64 = (1::nat)"
    by (simp add: decimalValue_def)
  have w: "be64 (decimalValue ''18446744073709551617'' mod 2 ^ 64) = [0, 0, 0, 0, 0, 0, 0, 1]"
    by (simp only: m be64_1)
  have o: "hexToBytes ''0011223'' = Inl InvalidHex"
    by (simp add: hexToBytes_odd)
  have s: "hexToBytes ''0011'' = Inr [0, 17]"
    by (simp add: hexToBytes_def Let_def re_lower_hex_star_def toLowerCase_def
        toLowerCase_char_def is_lower_hex_def hexToBytes_loop_Cons2 hexToBytes_loop_Nil
        parseInt16_def digitVal16_def toUint8_def)
  have s2: "length [0, 17 :: u8] \<noteq> 16" by simp
  have a1: "buildMessage ''00112233445566778899aabbccddeeff'' ''12x'' = Inl BigIntSyntaxError"
    using buildMessage_timestamp [of "''12x''" "''00112233445566778899aabbccddeeff''" ?nonce]
      BigInt_rejects(1) example_nonce l by blast
  have a2: "buildMessage ''00112233445566778899aabbccddeeff'' ''abc'' = Inl BigIntSyntaxError"
    using buildMessage_timestamp [of "''abc''" "''00112233445566778899aabbccddeeff''" ?nonce]
      BigInt_rejects(2) example_nonce l by blast
  have a3: "buildMessage ''00112233445566778899aabbccddeeff'' ''1e3'' = Inl BigIntSyntaxError"
    using buildMessage_timestamp [of "''1e3''" "''00112233445566778899aabbccddeeff''" ?nonce]
      BigInt_rejects(3) example_nonce l by blast
  have a4: "buildMessage ''00112233445566778899aabbccddeeff'' ''1.5'' = Inl BigIntSyntaxError"
    using buildMessage_timestamp [of "''1.5''" "''00112233445566778899aabbccddeeff''" ?nonce]
      c example_nonce l by blast
  have a5: "buildMessage ''0011223'' ''12x'' = Inl InvalidHex"
    using buildMessage_timestamp [of "''12x''" "''0011223''" _ InvalidHex]
      BigInt_rejects(1) o by blast
  have a6: "buildMessage ''0011'' ''12x'' = Inl NonceNot16"
    using buildMessage_timestamp [of "''12x''" "''0011''" "[0, 17]"]
      BigInt_rejects(1) s s2 by blast
  have "buildMessage ''00112233445566778899aabbccddeeff'' ''18446744073709551617''
     = Inr (?nonce @ be64 (decimalValue ''18446744073709551617'' mod 2 ^ 64))"
    using buildMessage_timestamp [of _ "''00112233445566778899aabbccddeeff''" ?nonce _
        "''18446744073709551617''"]
      digits_example(3) example_nonce l by blast
  then have b: "buildMessage ''00112233445566778899aabbccddeeff'' ''18446744073709551617''
     = Inr (?nonce @ [0, 0, 0, 0, 0, 0, 0, 1])"
    by (simp only: w)
  show ?thesis
    using BigInt_rejects(1) BigInt_rejects(2) BigInt_rejects(3) c example_nonce l
      a1 a2 a3 a4 o a5 s s2 a6 digits_example(3) b
    by blast
qed

section \<open>Message builder: the length of the nonce\<close>

lemma buildMessage_odd_nonce:
  "odd (length nonce_hex) \<Longrightarrow> buildMessage nonce_hex ts = Inl InvalidHex"
  by (simp add: buildMessage_def hexToBytes_odd)

lemma buildMessage_wrong_length:
  assumes "list_all is_hex nonce_hex" and "even (length nonce_hex)" and "length nonce_hex \<noteq> 32"
  shows "buildMessage nonce_hex ts = Inl NonceNot16"
proof -
  have "hexToBytes nonce_hex = Inr (hexToBytes_loop (toLowerCase nonce_hex))"
    using assms(1) assms(2) by (rule hexToBytes_ok)
  moreover have "length (hexToBytes_loop (toLowerCase nonce_hex)) \<noteq> 16"
    using assms(2) assms(3) by (auto simp: length_hexToBytes_loop length_toLowerCase)
  ultimately show ?thesis by (simp add: buildMessage_def)
qed

text \<open>
  C9, as the claim states it, fails: the string has 32 characters, not 33, it decodes
  to 16 bytes, and \<open>buildMessage\<close> returns a message for it.
\<close>

theorem buildMessage_example_nonce_counterexample:
  "length ''00112233445566778899aabbccddeeff'' = 32 \<and>
   re_digits_plus ''1700000000000'' \<and>
   buildMessage ''00112233445566778899aabbccddeeff'' ''1700000000000''
     = Inr [0, 17, 34, 51, 68, 85, 102, 119, 136, 153, 170, 187, 204, 221, 238, 255,
            0, 0, 1, 139, 207, 229, 104, 0]"
proof -
  have d: "list_all is_digit ''1700000000000''"
    using digits_example(1) by (simp add: re_digits_plus_def)
  have l: "length [0, 17, 34, 51, 68, 85, 102, 119, 136, 153, 170, 187, 204, 221, 238, 255 :: u8] = 16"
    by simp
  have "buildMessage ''00112233445566778899aabbccddeeff'' ''1700000000000''
     = Inr [0, 17, 34, 51, 68, 85, 102, 119, 136, 153, 170, 187, 204, 221, 238, 255,
            0, 0, 1, 139, 207, 229, 104, 0]"
    using buildMessage_digits [OF example_nonce l d] by (simp add: decimalValue_example be64_example)
  then show ?thesis using digits_example(1) by simp
qed

text \<open>
  C9, amended. A nonce string of 33 characters, or of any odd length, makes
  \<open>buildMessage\<close> fail with the invalid-hex error, and a string of hex digits of an even
  length other than 32 makes it fail with the nonce-length error, whatever the
  timestamp. The string \<open>00112233445566778899aabbccddeeff\<close> itself has 32 hex digits:
  with any decimal timestamp \<open>buildMessage\<close> returns its 16 bytes followed by the
  timestamp.
\<close>

theorem buildMessage_nonce_length:
  "(odd (length nonce_hex) \<longrightarrow> buildMessage nonce_hex ts = Inl InvalidHex) \<and>
   (list_all is_hex nonce_hex \<and> even (length nonce_hex) \<and> length nonce_hex \<noteq> 32 \<longrightarrow>
      buildMessage nonce_hex ts = Inl NonceNot16) \<and>
   (re_digits_plus ts \<longrightarrow>
      buildMessage ''00112233445566778899aabbccddeeff'' ts
        = Inr ([0, 17, 34, 51, 68, 85, 102, 119, 136, 153, 170, 187, 204, 221, 238, 255]
               @ be64 (decimalValue ts mod 2 ^ 64)))"
proof (intro conjI impI)
  assume "odd (length nonce_hex)"
  then show "buildMessage nonce_hex ts = Inl InvalidHex" by (rule buildMessage_odd_nonce)
next
  assume "list_all is_hex nonce_hex \<and> even (length nonce_hex) \<and> length nonce_hex \<noteq> 32"
  then show "buildMessage nonce_hex ts = Inl NonceNot16"
    by (simp add: buildMessage_wrong_length)
next
  assume "re_digits_plus ts"
  then have d: "list_all is_digit ts" by (simp add: re_digits_plus_def)
  have l: "length [0, 17, 34, 51, 68, 85, 102, 119, 136, 153, 170, 187, 204, 221, 238, 255 :: u8] = 16"
    by simp
  show "buildMessage ''00112233445566778899aabbccddeeff'' ts
        = Inr ([0, 17, 34, 51, 68, 85, 102, 119, 136, 153, 170, 187, 204, 221, 238, 255]
               @ be64 (decimalValue ts mod 2 ^ 64))"
    by (rule buildMessage_digits [OF example_nonce l d])
qed

theorem buildMessage_nonce_length_witness:
  "odd (length ''00112233445566778899aabbccddeeff0'') \<and>
   length ''00112233445566778899aabbccddeeff0'' = 33 \<and>
   buildMessage ''00112233445566778899aabbccddeeff0'' ''1700000000000'' = Inl InvalidHex \<and>
   list_all is_hex ''00112233445566778899aabbccddeeff00'' \<and>
   even (length ''00112233445566778899aabbccddeeff00'') \<and>
   length ''00112233445566778899aabbccddeeff00'' \<noteq> 32 \<and>
   buildMessage ''00112233445566778899aabbccddeeff00'' ''1700000000000'' = Inl NonceNot16 \<and>
   re_digits_plus ''1700000000000'' \<and>
   buildMessage ''00112233445566778899aabbccddeeff'' ''1700000000000''
     = Inr ([0, 17, 34, 51, 68, 85, 102, 119, 136, 153, 170, 187, 204, 221, 238, 255]
            @ [0, 0, 1, 139, 207, 229, 104, 0])"
proof -
  have o: "odd (length ''00112233445566778899aabbccddeeff0'')"
    "length ''00112233445566778899aabbccddeeff0'' = 33"
    by simp_all
  have e: "list_all is_hex ''00112233445566778899aabbccddeeff00''"
    "even (length ''00112233445566778899aabbccddeeff00'')"
    "length ''00112233445566778899aabbccddeeff00'' \<noteq> 32"
    by (simp_all add: is_hex_def)
  have w: "be64 (decimalValue ''1700000000000'' mod 2 ^ 64) = [0, 0, 1, 139, 207, 229, 104, 0]"
    by (simp add: decimalValue_example be64_example)
  note t1 = buildMessage_nonce_length [of "''00112233445566778899aabbccddeeff0''" "''1700000000000''"]
  note t2 = buildMessage_nonce_length [of "''00112233445566778899aabbccddeeff00''" "''1700000000000''"]
  from t1 o(1)
  have a: "buildMessage ''00112233445566778899aabbccddeeff0'' ''1700000000000'' = Inl InvalidHex"
    by blast
  from t2 e
  have b: "buildMessage ''00112233445566778899aabbccddeeff00'' ''1700000000000'' = Inl NonceNot16"
    by blast
  from t1 digits_example(1)
  have "buildMessage ''00112233445566778899aabbccddeeff'' ''1700000000000''
     = Inr ([0, 17, 34, 51, 68, 85, 102, 119, 136, 153, 170, 187, 204, 221, 238, 255]
            @ be64 (decimalValue ''1700000000000'' mod 2 ^ 64))"
    by blast
  then have c: "buildMessage ''00112233445566778899aabbccddeeff'' ''1700000000000''
     = Inr ([0, 17, 34, 51, 68, 85, 102, 119, 136, 153, 170, 187, 204, 221, 238, 255]
            @ [0, 0, 1, 139, 207, 229, 104, 0])"
    by (simp only: w)
  show ?thesis
    using o e a b c digits_example(1) by blast
qed

section \<open>Beacon registry: loading\<close>

lemma store_entries_Nil: "store_entries [] REG = REG"
  by (simp add: store_entries_def)

lemma store_entries_Cons:
  "store_entries (e # es) REG = store_entries es (REG(toLowerCase (fst e) \<mapsto> toLowerCase (snd e)))"
  by (simp add: store_entries_def)

lemma entry_ok_pair: "entry_ok (b, k) = (re_hex_exactly 16 b \<and> re_hex_exactly 64 k)"
  by (simp add: entry_ok_def)

lemma loadEntries_step:
  "entry_ok e \<Longrightarrow>
     loadEntries (e # es) REG = loadEntries es (REG(toLowerCase (fst e) \<mapsto> toLowerCase (snd e)))"
  by (cases e) (simp add: entry_ok_pair)

lemma loadEntries_stop:
  "\<not> entry_ok e \<Longrightarrow>
     snd (loadEntries (e # es) REG) = REG \<and>
     (fst (loadEntries (e # es) REG) = Some (BadBeaconIdHex (fst e))
      \<or> fst (loadEntries (e # es) REG) = Some (BadPublicKeyHex (fst e)))"
  by (cases e) (simp add: entry_ok_pair)

lemma loadEntries_registry:
  "snd (loadEntries obj REG) = store_entries (takeWhile entry_ok obj) REG"
proof (induction obj arbitrary: REG)
  case Nil
  show ?case by (simp add: store_entries_Nil)
next
  case (Cons e es)
  show ?case
  proof (cases "entry_ok e")
    case True
    then show ?thesis
      by (simp only: loadEntries_step Cons.IH takeWhile.simps if_True store_entries_Cons)
  next
    case False
    then show ?thesis
      using loadEntries_stop [OF False, of es REG] by (simp add: store_entries_Nil)
  qed
qed

lemma loadEntries_ok:
  "list_all entry_ok obj \<Longrightarrow> fst (loadEntries obj REG) = None"
proof (induction obj arbitrary: REG)
  case Nil
  show ?case by simp
next
  case (Cons e es)
  then have "entry_ok e" and "list_all entry_ok es" by simp_all
  then show ?case using Cons.IH by (simp only: loadEntries_step)
qed

lemma loadEntries_fails:
  "\<exists>e\<in>set obj. \<not> entry_ok e \<Longrightarrow>
     \<exists>b. fst (loadEntries obj REG) = Some (BadBeaconIdHex b)
        \<or> fst (loadEntries obj REG) = Some (BadPublicKeyHex b)"
proof (induction obj arbitrary: REG)
  case Nil
  then show ?case by simp
next
  case (Cons e es)
  show ?case
  proof (cases "entry_ok e")
    case True
    with Cons.prems have "\<exists>x\<in>set es. \<not> entry_ok x" by auto
    then show ?thesis using Cons.IH by (simp only: loadEntries_step [OF True])
  next
    case False
    then show ?thesis using loadEntries_stop [of e es REG] by blast
  qed
qed

lemma loadEntries_malformed:
  "\<not> entry_ok (b, k) \<Longrightarrow>
     loadEntries ((b, k) # es) REG
       = (Some (if \<not> re_hex_exactly 16 b then BadBeaconIdHex b else BadPublicKeyHex b), REG)"
  by (auto simp: entry_ok_pair)

lemma loadEntries_first_malformed:
  "list_all entry_ok good \<Longrightarrow> \<not> entry_ok (b, k) \<Longrightarrow>
     loadEntries (good @ (b, k) # rest) REG
       = (Some (if \<not> re_hex_exactly 16 b then BadBeaconIdHex b else BadPublicKeyHex b),
          store_entries good REG)"
proof (induction good arbitrary: REG)
  case Nil
  from Nil.prems(2)
  have "loadEntries ((b, k) # rest) REG
      = (Some (if \<not> re_hex_exactly 16 b then BadBeaconIdHex b else BadPublicKeyHex b), REG)"
    by (rule loadEntries_malformed)
  then show ?case by (simp only: append_Nil store_entries_Nil)
next
  case (Cons g gs)
  from Cons.prems(1) have g: "entry_ok g" and gs: "list_all entry_ok gs" by simp_all
  have "loadEntries ((g # gs) @ (b, k) # rest) REG
      = loadEntries (gs @ (b, k) # rest) (REG(toLowerCase (fst g) \<mapsto> toLowerCase (snd g)))"
    using loadEntries_step [OF g] by simp
  then show ?case
    using Cons.IH [OF gs Cons.prems(2)] by (simp only: store_entries_Cons)
qed

lemma store_entries_map_of:
  "store_entries es REG = REG ++ map_of (rev (map (\<lambda>e. (toLowerCase (fst e), toLowerCase (snd e))) es))"
proof (induction es arbitrary: REG)
  case Nil
  show ?case by (simp add: store_entries_Nil)
next
  case (Cons e es)
  have "REG(toLowerCase (fst e) \<mapsto> toLowerCase (snd e))
      = REG ++ map_of [(toLowerCase (fst e), toLowerCase (snd e))]"
    by simp
  then show ?case
    by (simp only: store_entries_Cons Cons.IH list.map rev.simps map_of_append map_add_assoc)
qed

lemma toLowerCase_key:
  "re_hex_exactly 64 k \<Longrightarrow> length (toLowerCase k) = 64 \<and> list_all is_lower_hex (toLowerCase k)"
  by (simp add: re_hex_exactly_def length_toLowerCase toLowerCase_hex)

lemma store_entries_ok:
  "registry_ok REG \<Longrightarrow> list_all entry_ok es \<Longrightarrow> registry_ok (store_entries es REG)"
proof (induction es arbitrary: REG)
  case Nil
  then show ?case by (simp add: store_entries_Nil)
next
  case (Cons e es)
  from Cons.prems(2) have "entry_ok e" and r: "list_all entry_ok es"
    by simp_all
  then have k: "re_hex_exactly 64 (snd e)" by (simp add: entry_ok_def)
  have "registry_ok (REG(toLowerCase (fst e) \<mapsto> toLowerCase (snd e)))"
    using Cons.prems(1) toLowerCase_key [OF k] by (simp add: registry_ok_def)
  then show ?case using Cons.IH r by (simp add: store_entries_Cons)
qed

lemma registry_ok_empty: "registry_ok Map.empty"
  by (simp add: registry_ok_def)

lemma takeWhile_all: "list_all P (takeWhile P xs)"
  by (induction xs) simp_all

lemma loadBeaconRegistry_ok: "registry_ok (snd (loadBeaconRegistry file REG))"
proof (cases "file")
  case Missing
  then show ?thesis by (simp add: loadBeaconRegistry_def registry_ok_empty)
next
  case NotJson
  then show ?thesis by (simp add: loadBeaconRegistry_def registry_ok_empty)
next
  case (Entries obj)
  then show ?thesis
    by (simp add: loadBeaconRegistry_def loadEntries_registry store_entries_ok registry_ok_empty
        takeWhile_all)
qed

lemma reachable_ok: "reachable REG \<Longrightarrow> registry_ok REG"
  by (induction rule: reachable.induct) (simp_all add: registry_ok_empty loadBeaconRegistry_ok)

text \<open>The examples, evaluated.\<close>

lemma example_key_format: "re_hex_exactly 64 example_key"
  by (simp add: example_key_def re_hex_exactly_def is_hex_def)

lemma example_key_lower:
  "toLowerCase example_key = ''d75a980182b10ab7d54bfed3c964073a0ee172f3daa62325af021a68f707511a''"
  by (simp add: example_key_def toLowerCase_def toLowerCase_char_def char_of_def bit_Suc_0_iff)

lemma example_id_format: "re_hex_exactly 16 ''A1B2C3D4E5F60708''" "re_hex_exactly 16 ''00000000000000ff''"
  "re_hex_exactly 16 ''a1b2c3d4e5f60708''" "\<not> re_hex_exactly 16 ''bad''"
  by (simp_all add: re_hex_exactly_def is_hex_def)

lemma example_id_lower: "toLowerCase ''A1B2C3D4E5F60708'' = ''a1b2c3d4e5f60708''"
  "toLowerCase ''00000000000000ff'' = ''00000000000000ff''"
  "toLowerCase ''a1b2c3d4e5f60708'' = ''a1b2c3d4e5f60708''"
  by (simp_all add: toLowerCase_def toLowerCase_char_def char_of_def bit_Suc_0_iff)

lemma example_registry_eq:
  "example_registry = [''a1b2c3d4e5f60708'' \<mapsto> toLowerCase example_key]"
  by (simp add: example_registry_def example_file_def loadBeaconRegistry_def example_id_format
      example_key_format example_id_lower)

lemma example_registry_reachable: "reachable example_registry"
  unfolding example_registry_def by (rule reachable.loaded [OF reachable.initial])

lemma example_lookup:
  "getPublicKeyHex example_registry ''a1b2c3d4e5f60708'' = Some (toLowerCase example_key)"
  "getPublicKeyHex example_registry ''A1B2C3D4E5F60708'' = Some (toLowerCase example_key)"
  "getPublicKeyHex example_registry ''00000000000000ff'' = None"
  by (simp_all add: getPublicKeyHex_def example_registry_eq example_id_lower)

text \<open>
  C2, as the claim states it, fails: loading a file whose second entry is malformed
  throws, and leaves a registry that has lost the beacon it held and holds the first
  entry of the file.
\<close>

theorem loadBeaconRegistry_partial_counterexample:
  "getPublicKeyHex example_registry ''a1b2c3d4e5f60708'' = Some (toLowerCase example_key) \<and>
   getPublicKeyHex example_registry ''00000000000000ff'' = None \<and>
   fst (loadBeaconRegistry broken_file example_registry) = Some (BadBeaconIdHex ''bad'') \<and>
   getPublicKeyHex (snd (loadBeaconRegistry broken_file example_registry)) ''a1b2c3d4e5f60708'' = None \<and>
   getPublicKeyHex (snd (loadBeaconRegistry broken_file example_registry)) ''00000000000000ff''
     = Some (toLowerCase example_key)"
proof -
  have "loadBeaconRegistry broken_file example_registry
      = (Some (BadBeaconIdHex ''bad''), [''00000000000000ff'' \<mapsto> toLowerCase example_key])"
    by (simp add: broken_file_def loadBeaconRegistry_def example_id_format example_key_format
        example_id_lower)
  then have "getPublicKeyHex (snd (loadBeaconRegistry broken_file example_registry))
        ''a1b2c3d4e5f60708'' = None"
    "getPublicKeyHex (snd (loadBeaconRegistry broken_file example_registry))
        ''00000000000000ff'' = Some (toLowerCase example_key)"
    "fst (loadBeaconRegistry broken_file example_registry) = Some (BadBeaconIdHex ''bad'')"
    by (simp_all add: getPublicKeyHex_def example_id_lower)
  with example_lookup(1) example_lookup(3) show ?thesis by blast
qed

text \<open>
  C2, amended. Loading a file with a malformed entry fails with the error of the first
  malformed entry in the order of \<open>Object.entries\<close>: the bad-beacon-id error when the
  id of that entry is malformed, else the bad-public-key error, each naming the id of
  that entry. The load is not atomic: it clears the registry and then stores one entry
  after the other, so after the failure the registry holds the entries that come before
  that entry, in lower case (a later entry for the same id replacing an earlier one), and
  nothing else.
\<close>

theorem loadBeaconRegistry_malformed:
  "(\<exists>e\<in>set obj. \<not> entry_ok e) \<longrightarrow>
     (\<exists>good b k rest.
        obj = good @ (b, k) # rest \<and> list_all entry_ok good \<and> \<not> entry_ok (b, k) \<and>
        fst (loadBeaconRegistry (Entries obj) REG)
          = Some (if \<not> re_hex_exactly 16 b then BadBeaconIdHex b else BadPublicKeyHex b) \<and>
        snd (loadBeaconRegistry (Entries obj) REG) = store_entries good Map.empty \<and>
        (\<forall>x. getPublicKeyHex (snd (loadBeaconRegistry (Entries obj) REG)) x
               = map_of (rev (map (\<lambda>e. (toLowerCase (fst e), toLowerCase (snd e))) good))
                   (toLowerCase x)))"
proof
  assume m: "\<exists>e\<in>set obj. \<not> entry_ok e"
  let ?good = "takeWhile entry_ok obj"
  from m have "dropWhile entry_ok obj \<noteq> []" by (auto simp: dropWhile_eq_Nil_conv)
  then obtain e rest where d: "dropWhile entry_ok obj = e # rest"
    by (cases "dropWhile entry_ok obj") auto
  obtain b k where e: "e = (b, k)" by (cases e)
  have n: "\<not> entry_ok (b, k)"
    using d e hd_dropWhile [of entry_ok obj] by auto
  have o: "obj = ?good @ (b, k) # rest"
    using takeWhile_dropWhile_id [of entry_ok obj] d e by simp
  have g: "list_all entry_ok ?good" by (rule takeWhile_all)
  have l: "loadEntries (?good @ (b, k) # rest) Map.empty
      = (Some (if \<not> re_hex_exactly 16 b then BadBeaconIdHex b else BadPublicKeyHex b),
         store_entries ?good Map.empty)"
    using g n by (rule loadEntries_first_malformed)
  have "loadEntries obj Map.empty
      = (Some (if \<not> re_hex_exactly 16 b then BadBeaconIdHex b else BadPublicKeyHex b),
         store_entries ?good Map.empty)"
    using l by (simp only: o [symmetric])
  then have r: "loadBeaconRegistry (Entries obj) REG
      = (Some (if \<not> re_hex_exactly 16 b then BadBeaconIdHex b else BadPublicKeyHex b),
         store_entries ?good Map.empty)"
    by (simp add: loadBeaconRegistry_def)
  have f1: "fst (loadBeaconRegistry (Entries obj) REG)
      = Some (if \<not> re_hex_exactly 16 b then BadBeaconIdHex b else BadPublicKeyHex b)"
    by (simp only: r fst_conv)
  have f2: "snd (loadBeaconRegistry (Entries obj) REG) = store_entries ?good Map.empty"
    by (simp only: r snd_conv)
  have q: "\<forall>x. getPublicKeyHex (snd (loadBeaconRegistry (Entries obj) REG)) x
               = map_of (rev (map (\<lambda>e. (toLowerCase (fst e), toLowerCase (snd e))) ?good))
                   (toLowerCase x)"
    by (simp add: f2 getPublicKeyHex_def store_entries_map_of)
  from o g n f1 f2 q show "\<exists>good b k rest.
        obj = good @ (b, k) # rest \<and> list_all entry_ok good \<and> \<not> entry_ok (b, k) \<and>
        fst (loadBeaconRegistry (Entries obj) REG)
          = Some (if \<not> re_hex_exactly 16 b then BadBeaconIdHex b else BadPublicKeyHex b) \<and>
        snd (loadBeaconRegistry (Entries obj) REG) = store_entries good Map.empty \<and>
        (\<forall>x. getPublicKeyHex (snd (loadBeaconRegistry (Entries obj) REG)) x
               = map_of (rev (map (\<lambda>e. (toLowerCase (fst e), toLowerCase (snd e))) good))
                   (toLowerCase x))"
    by blast
qed

theorem loadBeaconRegistry_malformed_witness:
  "(\<exists>e\<in>set [(''00000000000000ff'', example_key), (''bad'', example_key),
               (''a1b2c3d4e5f60708'', ''00'')]. \<not> entry_ok e) \<and>
   fst (loadBeaconRegistry (Entries [(''00000000000000ff'', example_key), (''bad'', example_key),
          (''a1b2c3d4e5f60708'', ''00'')]) example_registry)
     = Some (BadBeaconIdHex ''bad'') \<and>
   snd (loadBeaconRegistry (Entries [(''00000000000000ff'', example_key), (''bad'', example_key),
          (''a1b2c3d4e5f60708'', ''00'')]) example_registry)
     = [''00000000000000ff'' \<mapsto> toLowerCase example_key]"
proof -
  let ?obj = "[(''00000000000000ff'', example_key), (''bad'', example_key),
               (''a1b2c3d4e5f60708'', ''00'')]"
  have ok1: "entry_ok (''00000000000000ff'', example_key)"
    by (simp add: entry_ok_pair example_id_format example_key_format)
  have m: "\<exists>e\<in>set ?obj. \<not> entry_ok e"
    by (simp add: entry_ok_pair example_id_format)
  from loadBeaconRegistry_malformed [of ?obj example_registry] m
  obtain good b k rest where h:
    "?obj = good @ (b, k) # rest" "list_all entry_ok good" "\<not> entry_ok (b, k)"
    "fst (loadBeaconRegistry (Entries ?obj) example_registry)
       = Some (if \<not> re_hex_exactly 16 b then BadBeaconIdHex b else BadPublicKeyHex b)"
    "snd (loadBeaconRegistry (Entries ?obj) example_registry) = store_entries good Map.empty"
    by blast
  have "good = [(''00000000000000ff'', example_key)] \<and> b = ''bad''"
  proof (cases good)
    case Nil
    with h(1) h(3) ok1 show ?thesis by simp
  next
    case (Cons g gs)
    note c1 = Cons
    show ?thesis
    proof (cases gs)
      case Nil
      with c1 h(1) show ?thesis by simp
    next
      case (Cons g2 gs2)
      with c1 h(1) h(2) have "entry_ok (''bad'', example_key)" by auto
      then show ?thesis by (simp add: entry_ok_pair example_id_format)
    qed
  qed
  then have "fst (loadBeaconRegistry (Entries ?obj) example_registry) = Some (BadBeaconIdHex ''bad'')"
    "snd (loadBeaconRegistry (Entries ?obj) example_registry)
       = [''00000000000000ff'' \<mapsto> toLowerCase example_key]"
    using h(4) h(5) by (simp_all add: example_id_format store_entries_def example_id_lower)
  with m show ?thesis by blast
qed

section \<open>Verification endpoint\<close>

lemma zodParse_ok:
  "re_hex_exactly 16 (beaconIdHex b) \<Longrightarrow> re_hex_exactly 32 (nonceHex b) \<Longrightarrow>
   re_digits_plus (tsMs b) \<Longrightarrow> re_hex_exactly 128 (sigHex b) \<Longrightarrow> zodParse b = Inr b"
  by (simp add: zodParse_def)

lemma zodParse_Inr:
  "zodParse b = Inr b' \<Longrightarrow>
     b' = b \<and> re_hex_exactly 16 (beaconIdHex b) \<and> re_hex_exactly 32 (nonceHex b) \<and>
     re_digits_plus (tsMs b) \<and> re_hex_exactly 128 (sigHex b)"
  by (auto simp: zodParse_def Let_def split: if_splits)

lemma zodParse_cases:
  "zodParse b = Inr b \<or> (\<exists>issues. issues \<noteq> [] \<and> zodParse b = Inl (ZodError issues))"
  by (simp add: zodParse_def Let_def)

lemma hexToBytes_exactly:
  assumes "re_hex_exactly (2 * n) s"
  shows "\<exists>bs. hexToBytes s = Inr bs \<and> length bs = n"
proof -
  from assms have h: "list_all is_hex s" and l: "length s = 2 * n"
    by (simp_all add: re_hex_exactly_def)
  from l have "even (length s)" by simp
  with h have "hexToBytes s = Inr (hexToBytes_loop (toLowerCase s))" by (rule hexToBytes_ok)
  moreover have "length (hexToBytes_loop (toLowerCase s)) = n"
    using l by (simp add: length_hexToBytes_loop length_toLowerCase)
  ultimately show ?thesis by blast
qed

lemma hexToBytes_key:
  assumes "length k = 64" and "list_all is_lower_hex k"
  shows "\<exists>bs. hexToBytes k = Inr bs \<and> length bs = 32"
proof -
  from assms have "re_hex_exactly (2 * 32) k"
    by (simp add: re_hex_exactly_def list_all_iff is_lower_hex_is_hex)
  then show ?thesis by (rule hexToBytes_exactly)
qed

lemma verify_handler_registered:
  assumes r: "registry_ok REG"
    and p: "zodParse body = Inr body"
    and k: "getPublicKeyHex REG (beaconIdHex body) = Some pubHex"
  shows "\<exists>nonce sig pub.
     hexToBytes (nonceHex body) = Inr nonce \<and> length nonce = 16 \<and>
     hexToBytes (sigHex body) = Inr sig \<and> length sig = 64 \<and>
     hexToBytes pubHex = Inr pub \<and> length pub = 32 \<and>
     buildMessage (nonceHex body) (tsMs body)
       = Inr (nonce @ be64 (decimalValue (tsMs body) mod 2 ^ 64)) \<and>
     verify_handler ed25519 REG body =
       Inr \<lparr>status = 200,
            ok = ed25519 (nonce @ be64 (decimalValue (tsMs body) mod 2 ^ 64)) sig pub,
            error = None\<rparr>"
proof -
  from zodParse_Inr [OF p]
  have f: "re_hex_exactly (2 * 16) (nonceHex body)" "re_digits_plus (tsMs body)"
    "re_hex_exactly (2 * 64) (sigHex body)"
    by simp_all
  from k r have pk: "length pubHex = 64" "list_all is_lower_hex pubHex"
    by (simp_all add: getPublicKeyHex_def registry_ok_def)
  from hexToBytes_exactly [OF f(1)] obtain nonce
    where n: "hexToBytes (nonceHex body) = Inr nonce" "length nonce = 16" by blast
  from hexToBytes_exactly [OF f(3)] obtain sig
    where s: "hexToBytes (sigHex body) = Inr sig" "length sig = 64" by blast
  from hexToBytes_key [OF pk] obtain pub
    where u: "hexToBytes pubHex = Inr pub" "length pub = 32" by blast
  from f(2) have "list_all is_digit (tsMs body)" by (simp add: re_digits_plus_def)
  with n have m: "buildMessage (nonceHex body) (tsMs body)
      = Inr (nonce @ be64 (decimalValue (tsMs body) mod 2 ^ 64))"
    by (simp add: buildMessage_digits)
  from pk(1) have ne: "pubHex \<noteq> []" by auto
  have "verify_handler ed25519 REG body =
       Inr \<lparr>status = 200,
            ok = ed25519 (nonce @ be64 (decimalValue (tsMs body) mod 2 ^ 64)) sig pub,
            error = None\<rparr>"
    by (simp add: verify_handler_def p k ne m s u nacl_verify_def)
  with n s u m show ?thesis by blast
qed


lemma verify_handler_malformed:
  assumes "zodParse body = Inl e"
  shows "verify_handler ed25519 REG body = Inl e"
  using assms by (simp add: verify_handler_def)

text \<open>The example request.\<close>

lemma example_body_fields:
  "re_hex_exactly 16 (beaconIdHex example_body)" "re_hex_exactly 32 (nonceHex example_body)"
  "re_digits_plus (tsMs example_body)" "re_hex_exactly 128 (sigHex example_body)"
  "getPublicKeyHex example_registry (beaconIdHex example_body) = Some (toLowerCase example_key)"
  by (simp_all add: example_body_def example_id_format example_nonce_chars re_hex_exactly_def
      digits_example example_lookup list_all_iff is_hex_def)

text \<open>The route: a body passes the schema exactly when it passes the handler's own parse.\<close>

lemma body_schema_ok:
  "body_schema_errors b = [] \<longleftrightarrow>
     re_hex_exactly 16 (beaconIdHex b) \<and> re_hex_exactly 32 (nonceHex b) \<and>
     re_digits_plus (tsMs b) \<and> re_hex_exactly 128 (sigHex b)"
  by (simp add: body_schema_errors_def)

lemma body_schema_zodParse: "body_schema_errors b = [] \<longleftrightarrow> zodParse b = Inr b"
  by (auto simp: body_schema_ok zodParse_ok dest: zodParse_Inr)

lemma verify_route_passed:
  "body_schema_errors b = [] \<Longrightarrow> verify_route ed25519 REG b = verify_handler ed25519 REG b"
  by (simp add: verify_route_def)


lemma hexToBytes_encodes:
  assumes "list_all is_hex s" and "even (length s)" and "hexToBytes s = Inr bs"
  shows "bytesToHex bs = toLowerCase s"
proof -
  have "hexToBytes s = Inr (hexToBytes_loop (toLowerCase s))"
    using assms(1) assms(2) by (rule hexToBytes_ok)
  with assms(3) have "bs = hexToBytes_loop (toLowerCase s)" by simp
  moreover have "bytesToHex (hexToBytes_loop (toLowerCase s)) = toLowerCase s"
    using assms(1) assms(2)
    by (intro encode_hexToBytes_loop toLowerCase_hex) (simp_all add: length_toLowerCase)
  ultimately show ?thesis by simp
qed

lemma verify_route_registered:
  assumes r: "registry_ok REG"
    and p: "body_schema_errors body = []"
    and k: "getPublicKeyHex REG (beaconIdHex body) = Some pubHex"
  shows "\<exists>nonce sig pub.
     hexToBytes (nonceHex body) = Inr nonce \<and> length nonce = 16 \<and>
     bytesToHex nonce = toLowerCase (nonceHex body) \<and>
     hexToBytes (sigHex body) = Inr sig \<and> length sig = 64 \<and>
     bytesToHex sig = toLowerCase (sigHex body) \<and>
     hexToBytes pubHex = Inr pub \<and> length pub = 32 \<and> bytesToHex pub = pubHex \<and>
     buildMessage (nonceHex body) (tsMs body)
       = Inr (nonce @ be64 (decimalValue (tsMs body) mod 2 ^ 64)) \<and>
     verify_route ed25519 REG body =
       Inr \<lparr>status = 200,
            ok = ed25519 (nonce @ be64 (decimalValue (tsMs body) mod 2 ^ 64)) sig pub,
            error = None\<rparr>"
proof -
  from p have z: "zodParse body = Inr body" by (simp add: body_schema_zodParse)
  from p have f: "re_hex_exactly 32 (nonceHex body)" "re_hex_exactly 128 (sigHex body)"
    by (simp_all add: body_schema_ok)
  from k r have pk: "length pubHex = 64" "list_all is_lower_hex pubHex"
    by (simp_all add: getPublicKeyHex_def registry_ok_def)
  from verify_handler_registered [OF r z k, of ed25519] obtain nonce sig pub where h:
    "hexToBytes (nonceHex body) = Inr nonce" "length nonce = 16"
    "hexToBytes (sigHex body) = Inr sig" "length sig = 64"
    "hexToBytes pubHex = Inr pub" "length pub = 32"
    "buildMessage (nonceHex body) (tsMs body)
       = Inr (nonce @ be64 (decimalValue (tsMs body) mod 2 ^ 64))"
    "verify_handler ed25519 REG body =
       Inr \<lparr>status = 200,
            ok = ed25519 (nonce @ be64 (decimalValue (tsMs body) mod 2 ^ 64)) sig pub,
            error = None\<rparr>"
    by blast
  have e1: "bytesToHex nonce = toLowerCase (nonceHex body)"
    using f(1) h(1) by (intro hexToBytes_encodes) (simp_all add: re_hex_exactly_def)
  have e2: "bytesToHex sig = toLowerCase (sigHex body)"
    using f(2) h(3) by (intro hexToBytes_encodes) (simp_all add: re_hex_exactly_def)
  have "bytesToHex pub = toLowerCase pubHex"
    using pk h(5)
    by (intro hexToBytes_encodes) (simp_all add: list_all_iff is_lower_hex_is_hex)
  then have e3: "bytesToHex pub = pubHex"
    using pk(2) by (simp add: toLowerCase_lower)
  have "verify_route ed25519 REG body =
       Inr \<lparr>status = 200,
            ok = ed25519 (nonce @ be64 (decimalValue (tsMs body) mod 2 ^ 64)) sig pub,
            error = None\<rparr>"
    using h(8) p by (simp add: verify_route_passed)
  with h e1 e2 e3 show ?thesis by blast
qed

lemma wrap_body_fields:
  "body_schema_errors wrap_body = []"
  "getPublicKeyHex example_registry (beaconIdHex wrap_body) = Some (toLowerCase example_key)"
  "nonceHex wrap_body = ''00112233445566778899aabbccddeeff''"
  "tsMs wrap_body = ''18446744073709551617''"
  using example_body_fields digits_example(3)
  by (simp_all add: wrap_body_def body_schema_ok) (simp add: example_body_def)


text \<open>
  C1, as the claim states it, fails. A request with the timestamp \<open>2^64 + 1\<close> passes
  validation, and it is accepted on a signature that is valid for one message only: the
  nonce followed by the eight bytes of the timestamp 1. No message of 24 bytes holds the
  timestamp of the request.
\<close>

theorem verify_timestamp_wrap_counterexample:
  "body_schema_errors wrap_body = [] \<and>
   getPublicKeyHex example_registry (beaconIdHex wrap_body) = Some (toLowerCase example_key) \<and>
   decimalValue (tsMs wrap_body) = 2 ^ 64 + 1 \<and>
   beValue [0, 0, 0, 0, 0, 0, 0, 1] = 1 \<and>
   verify_route
     (accepts_only ([0, 17, 34, 51, 68, 85, 102, 119, 136, 153, 170, 187, 204, 221, 238, 255]
                    @ [0, 0, 0, 0, 0, 0, 0, 1]))
     example_registry wrap_body
     = Inr \<lparr>status = 200, ok = True, error = None\<rparr>"
proof -
  let ?m = "[0, 17, 34, 51, 68, 85, 102, 119, 136, 153, 170, 187, 204, 221, 238, 255 :: u8]
                    @ [0, 0, 0, 0, 0, 0, 0, 1]"
  have r: "registry_ok example_registry"
    using example_registry_reachable by (rule reachable_ok)
  have v: "decimalValue (tsMs wrap_body) = 2 ^ 64 + 1"
    by (simp only: wrap_body_fields(4) decimalValue_2_64_1)
  have m: "decimalValue (tsMs wrap_body) mod 2 ^ 64 = (1::nat)"
    by (simp add: v)
  from verify_route_registered [OF r wrap_body_fields(1) wrap_body_fields(2), of "accepts_only ?m"]
  obtain nonce sig pub where h: "hexToBytes (nonceHex wrap_body) = Inr nonce"
    "verify_route (accepts_only ?m) example_registry wrap_body =
       Inr \<lparr>status = 200,
            ok = accepts_only ?m (nonce @ be64 (decimalValue (tsMs wrap_body) mod 2 ^ 64)) sig pub,
            error = None\<rparr>"
    by blast
  from h(1) have n: "nonce = [0, 17, 34, 51, 68, 85, 102, 119, 136, 153, 170, 187, 204, 221, 238, 255]"
    by (simp add: wrap_body_fields(3) example_nonce)
  have "accepts_only ?m (nonce @ be64 (decimalValue (tsMs wrap_body) mod 2 ^ 64)) sig pub"
    by (simp only: m be64_1 n accepts_only_def)
  with h(2) have a: "verify_route (accepts_only ?m) example_registry wrap_body
     = Inr \<lparr>status = 200, ok = True, error = None\<rparr>"
    by simp
  have b: "beValue [0, 0, 0, 0, 0, 0, 0, 1] = 1"
    by (simp add: beValue_def)
  show ?thesis
    using wrap_body_fields(1) wrap_body_fields(2) v a b by blast
qed

text \<open>
  C1, amended. For a request whose four fields pass validation and whose beacon id
  resolves to a registered key, the endpoint answers with status 200 and \<open>ok\<close> equal to
  the verdict of the Ed25519 check of the 64 bytes of the signature against the 24-byte
  message, under the 32 bytes of the registered key. The message is the 16 bytes of the
  nonce followed by the eight big-endian bytes of the timestamp modulo \<open>2^64\<close>: for a
  timestamp below \<open>2^64\<close> these are the bytes of the timestamp itself, and a timestamp at
  or above \<open>2^64\<close> is not refused. So \<open>ok = true\<close> if and only if the signature is valid
  for that message, and otherwise the answer is the rejection \<open>ok = false\<close>, which has
  status 200 and no reason code.
\<close>

theorem verify_route_accepts_iff_valid:
  assumes "reachable REG"
    and "re_hex_exactly 16 (beaconIdHex body)" and "re_hex_exactly 32 (nonceHex body)"
    and "re_digits_plus (tsMs body)" and "re_hex_exactly 128 (sigHex body)"
    and "getPublicKeyHex REG (beaconIdHex body) = Some pubHex"
  shows "\<exists>nonce ts sig pub.
     hexToBytes (nonceHex body) = Inr nonce \<and> length nonce = 16 \<and>
     bytesToHex nonce = toLowerCase (nonceHex body) \<and>
     ts = be64 (decimalValue (tsMs body) mod 2 ^ 64) \<and> length ts = 8 \<and>
     beValue ts = decimalValue (tsMs body) mod 2 ^ 64 \<and>
     (decimalValue (tsMs body) < 2 ^ 64 \<longrightarrow> beValue ts = decimalValue (tsMs body)) \<and>
     hexToBytes (sigHex body) = Inr sig \<and> length sig = 64 \<and>
     bytesToHex sig = toLowerCase (sigHex body) \<and>
     hexToBytes pubHex = Inr pub \<and> length pub = 32 \<and> bytesToHex pub = pubHex \<and>
     buildMessage (nonceHex body) (tsMs body) = Inr (nonce @ ts) \<and>
     verify_route ed25519 REG body
       = Inr \<lparr>status = 200, ok = ed25519 (nonce @ ts) sig pub, error = None\<rparr> \<and>
     (ed25519 (nonce @ ts) sig pub \<longleftrightarrow>
        verify_route ed25519 REG body = Inr \<lparr>status = 200, ok = True, error = None\<rparr>) \<and>
     (\<not> ed25519 (nonce @ ts) sig pub \<longleftrightarrow>
        verify_route ed25519 REG body = Inr \<lparr>status = 200, ok = False, error = None\<rparr>)"
proof -
  have r: "registry_ok REG" using assms(1) by (rule reachable_ok)
  have p: "body_schema_errors body = []"
    using assms(2) assms(3) assms(4) assms(5) by (simp add: body_schema_ok)
  let ?ts = "be64 (decimalValue (tsMs body) mod 2 ^ 64)"
  from verify_route_registered [OF r p assms(6), of ed25519]
  obtain nonce sig pub where h:
    "hexToBytes (nonceHex body) = Inr nonce" "length nonce = 16"
    "bytesToHex nonce = toLowerCase (nonceHex body)"
    "hexToBytes (sigHex body) = Inr sig" "length sig = 64"
    "bytesToHex sig = toLowerCase (sigHex body)"
    "hexToBytes pubHex = Inr pub" "length pub = 32" "bytesToHex pub = pubHex"
    "buildMessage (nonceHex body) (tsMs body) = Inr (nonce @ ?ts)"
    "verify_route ed25519 REG body =
       Inr \<lparr>status = 200, ok = ed25519 (nonce @ ?ts) sig pub, error = None\<rparr>"
    by blast
  have t: "length ?ts = 8" "beValue ?ts = decimalValue (tsMs body) mod 2 ^ 64"
    "decimalValue (tsMs body) < 2 ^ 64 \<longrightarrow> beValue ?ts = decimalValue (tsMs body)"
    by (simp_all add: length_be64 beValue_be64)
  have i: "(ed25519 (nonce @ ?ts) sig pub \<longleftrightarrow>
        verify_route ed25519 REG body = Inr \<lparr>status = 200, ok = True, error = None\<rparr>)"
    "(\<not> ed25519 (nonce @ ?ts) sig pub \<longleftrightarrow>
        verify_route ed25519 REG body = Inr \<lparr>status = 200, ok = False, error = None\<rparr>)"
    by (simp_all add: h(11))
  from h t i show ?thesis by blast
qed

theorem verify_route_accepts_iff_valid_witness:
  "reachable example_registry \<and>
   re_hex_exactly 16 (beaconIdHex example_body) \<and> re_hex_exactly 32 (nonceHex example_body) \<and>
   re_digits_plus (tsMs example_body) \<and> re_hex_exactly 128 (sigHex example_body) \<and>
   getPublicKeyHex example_registry (beaconIdHex example_body) = Some (toLowerCase example_key) \<and>
   verify_route
     (accepts_only ([0, 17, 34, 51, 68, 85, 102, 119, 136, 153, 170, 187, 204, 221, 238, 255]
                    @ [0, 0, 1, 139, 207, 229, 104, 0]))
     example_registry example_body
     = Inr \<lparr>status = 200, ok = True, error = None\<rparr> \<and>
   verify_route (accepts_only (replicate 24 0)) example_registry example_body
     = Inr \<lparr>status = 200, ok = False, error = None\<rparr>"
proof -
  note f = example_body_fields
  let ?n = "[0, 17, 34, 51, 68, 85, 102, 119, 136, 153, 170, 187, 204, 221, 238, 255 :: u8]"
  let ?m = "?n @ [0, 0, 1, 139, 207, 229, 104, 0]"
  have fields: "nonceHex example_body = ''00112233445566778899aabbccddeeff''"
    "tsMs example_body = ''1700000000000''"
    by (simp_all add: example_body_def)
  have w: "be64 (decimalValue (tsMs example_body) mod 2 ^ 64) = [0, 0, 1, 139, 207, 229, 104, 0]"
    by (simp add: fields decimalValue_example be64_example)
  have msg: "nonce @ ts = ?m"
    if "hexToBytes (nonceHex example_body) = Inr nonce"
      and "ts = be64 (decimalValue (tsMs example_body) mod 2 ^ 64)" for nonce ts
  proof -
    from that(1) have "nonce = ?n" by (simp add: fields(1) example_nonce)
    moreover from that(2) have "ts = [0, 0, 1, 139, 207, 229, 104, 0]" by (simp only: w)
    ultimately show ?thesis by (simp only:)
  qed
  from verify_route_accepts_iff_valid [OF example_registry_reachable f(1) f(2) f(3) f(4) f(5),
      of "accepts_only ?m"]
  obtain nonce ts sig pub where a:
    "hexToBytes (nonceHex example_body) = Inr nonce"
    "ts = be64 (decimalValue (tsMs example_body) mod 2 ^ 64)"
    "verify_route (accepts_only ?m) example_registry example_body
       = Inr \<lparr>status = 200, ok = accepts_only ?m (nonce @ ts) sig pub, error = None\<rparr>"
    by blast
  have a': "verify_route (accepts_only ?m) example_registry example_body
       = Inr \<lparr>status = 200, ok = True, error = None\<rparr>"
    using a(3) msg [OF a(1) a(2)] by (simp add: accepts_only_def)
  from verify_route_accepts_iff_valid [OF example_registry_reachable f(1) f(2) f(3) f(4) f(5),
      of "accepts_only (replicate 24 0)"]
  obtain nonce2 ts2 sig2 pub2 where b:
    "hexToBytes (nonceHex example_body) = Inr nonce2"
    "ts2 = be64 (decimalValue (tsMs example_body) mod 2 ^ 64)"
    "verify_route (accepts_only (replicate 24 0)) example_registry example_body
       = Inr \<lparr>status = 200, ok = accepts_only (replicate 24 0) (nonce2 @ ts2) sig2 pub2,
              error = None\<rparr>"
    by blast
  have "?m \<noteq> replicate 24 0" by (simp add: eval_nat_numeral)
  then have b': "verify_route (accepts_only (replicate 24 0)) example_registry example_body
       = Inr \<lparr>status = 200, ok = False, error = None\<rparr>"
    using b(3) msg [OF b(1) b(2)] by (simp add: accepts_only_def)
  show ?thesis
    using example_registry_reachable f a' b' by blast
qed




section \<open>Challenge/response session\<close>

lemma bytesToHex_zeros: "bytesToHex (replicate n 0) = replicate (2 * n) (CHR ''0'')"
  by (induction n) (simp_all add: bytesToHex_Nil bytesToHex_Cons hexChar_0)

lemma be64ToMs_8: "length u8 = 8 \<Longrightarrow> \<exists>n. be64ToMs u8 = Inr n"
  by (simp add: be64ToMs_def)

lemma be64ToMs_zeros: "be64ToMs (replicate 8 0) = Inr 0"
  by (simp add: be64ToMs_def eval_nat_numeral)

lemma decimalString_0: "decimalString 0 = ''0''"
  by (simp add: decimalString.simps [of 0] char_of_def bit_0 bit_Suc_0_iff)

lemma awaiting_session_eq:
  "awaiting_session =
     connected_session\<lparr>err := NoError, verified := None, tsMs_st := [], sigHex_st := [],
       verifying := True, nonceHex_st := ''00112233445566778899aabbccddeeff'',
       nonceRef := ''00112233445566778899aabbccddeeff'', notifyAttached := True,
       listener_beaconIdHex := ''a1b2c3d4e5f60708''\<rparr>"
proof -
  have "hexToBytes_frontend ''00112233445566778899aabbccddeeff''
      = Inr (hexToBytes_loop ''00112233445566778899aabbccddeeff'')"
    using example_nonce_chars by (simp add: hexToBytes_frontend_def)
  then show ?thesis
    by (simp add: awaiting_session_def verifyPresence_def connected_session_def
        initial_session_def Let_def)
qed

text \<open>A notification of 72 bytes, with a nonce of 32 characters retained, is submitted.\<close>

lemma onNotify_submits:
  assumes "length raw = 72" and "length (nonceRef s) = 32"
  shows "\<exists>payload. snd (onNotify fmt api s raw) = [PostVerify payload] \<and>
           nonceHex payload = nonceRef s \<and> sigHex payload = bytesToHex (drop 8 raw)"
proof -
  from assms(1) have "length (take 8 raw) = 8" by simp
  then obtain n where n: "be64ToMs (take 8 raw) = Inr n" using be64ToMs_8 by blast
  from assms(2) have ne: "nonceRef s \<noteq> []" by auto
  show ?thesis
    using assms ne by (cases "api \<lparr>beaconIdHex = listener_beaconIdHex s, nonceHex = nonceRef s,
        tsMs = numberToString fmt n, sigHex = bytesToHex (drop 8 raw)\<rparr>")
      (simp_all add: onNotify_def n Let_def)
qed

text \<open>
  C7. A notification whose payload is not 72 bytes long makes the session fail with
  the error that names the expected and the received length; no request is submitted to
  the verification endpoint, and nothing else of the session changes.
\<close>

theorem onNotify_malformed_response:
  assumes "length raw \<noteq> 72"
  shows "onNotify fmt api s raw = (s\<lparr>err := Expected72B (length raw), verifying := False\<rparr>, []) \<and>
         (\<forall>payload. PostVerify payload \<notin> set (snd (onNotify fmt api s raw))) \<and>
         err (fst (onNotify fmt api s raw)) = Expected72B (length raw) \<and>
         verified (fst (onNotify fmt api s raw)) = verified s"
  using assms by (simp add: onNotify_def)

theorem onNotify_malformed_response_witness:
  "length (replicate 70 (0::u8)) \<noteq> 72 \<and>
   snd (onNotify decimalString refusing_api awaiting_session (replicate 70 0)) = [] \<and>
   err (fst (onNotify decimalString refusing_api awaiting_session (replicate 70 0))) = Expected72B 70 \<and>
   verified (fst (onNotify decimalString refusing_api awaiting_session (replicate 70 0))) = None"
proof -
  have l: "length (replicate 70 (0::u8)) \<noteq> 72" by simp
  have v: "verified awaiting_session = None" by (simp add: awaiting_session_eq)
  from onNotify_malformed_response [OF l, of decimalString refusing_api awaiting_session]
  show ?thesis using l v by simp
qed

lemma disconnectBeacon_nonceRef: "nonceRef (fst (disconnectBeacon s)) = nonceRef s"
  by (simp add: disconnectBeacon_def Let_def)

lemma disconnectBeacon_effects:
  "RemoveListener \<notin> set (snd (disconnectBeacon s)) \<and>
   StopNotifications \<notin> set (snd (disconnectBeacon s))"
  by (simp add: disconnectBeacon_def Let_def split: option.splits)

text \<open>
  C6 does not hold of the code. \<open>disconnectBeacon\<close> resets the state variable
  \<open>nonceHex\<close> but never the ref \<open>nonceRef\<close> that \<open>onNotify\<close> reads, and it calls neither
  \<open>removeEventListener\<close> nor \<open>stopNotifications\<close>: it clears the flag \<open>notifyAttached\<close>
  and disconnects. After a verification attempt and a disconnect the nonce is still
  retained, and a notification handled afterwards is submitted with it.
\<close>

theorem disconnectBeacon_retains_nonce:
  "nonceRef awaiting_session = ''00112233445566778899aabbccddeeff'' \<and>
   disconnected_session = fst (disconnectBeacon awaiting_session) \<and>
   snd (disconnectBeacon awaiting_session) = [GattDisconnect] \<and>
   nonceHex_st disconnected_session = [] \<and>
   notifyAttached disconnected_session = False \<and>
   nonceRef disconnected_session = ''00112233445566778899aabbccddeeff'' \<and>
   snd (onNotify decimalString refusing_api disconnected_session (replicate 72 0))
     = [PostVerify \<lparr>beaconIdHex = ''a1b2c3d4e5f60708'',
                    nonceHex = ''00112233445566778899aabbccddeeff'',
                    tsMs = ''0'', sigHex = replicate 128 (CHR ''0'')\<rparr>]"
proof -
  have d: "disconnectBeacon awaiting_session =
      (awaiting_session\<lparr>conn := None, notifyAttached := False, deviceName := [],
         beaconIdHex_st := [], verified := None, nonceHex_st := [], tsMs_st := [],
         sigHex_st := [], err := NoError\<rparr>, [GattDisconnect])"
    by (simp add: disconnectBeacon_def awaiting_session_eq connected_session_def)
  have n: "nonceRef disconnected_session = ''00112233445566778899aabbccddeeff''"
    "listener_beaconIdHex disconnected_session = ''a1b2c3d4e5f60708''"
    "nonceHex_st disconnected_session = []" "notifyAttached disconnected_session = False"
    by (simp_all add: disconnected_session_def disconnectBeacon_def awaiting_session_eq
        connected_session_def initial_session_def)
  have t: "take 8 (replicate 72 (0::u8)) = replicate 8 0" "drop 8 (replicate 72 (0::u8)) = replicate 64 0"
    by simp_all
  have "snd (onNotify decimalString refusing_api disconnected_session (replicate 72 0))
     = [PostVerify \<lparr>beaconIdHex = ''a1b2c3d4e5f60708'',
                    nonceHex = ''00112233445566778899aabbccddeeff'',
                    tsMs = ''0'', sigHex = replicate 128 (CHR ''0'')\<rparr>]"
    by (simp add: onNotify_def t be64ToMs_zeros numberToString_def decimalString_0 n
        bytesToHex_zeros refusing_api_def Let_def)
  moreover have "nonceRef awaiting_session = ''00112233445566778899aabbccddeeff''"
    by (simp add: awaiting_session_eq)
  moreover have "snd (disconnectBeacon awaiting_session) = [GattDisconnect]"
    by (simp only: d snd_conv)
  ultimately show ?thesis
    using n disconnected_session_def by blast
qed

end
